theory Spec2Isabelle
  imports
    Complex_Main
    "HOL-Library.AList"
    "HOL-Library.Char_ord"
    "HOL-Library.List_Lexorder"
    "HOL-Library.Multiset"
    "HOL-Library.Product_Lexorder"
begin

section \<open>Data model\<close>

text \<open>
  The marketing KPI toolkit (\<^verbatim>\<open>marketing_kpi_toolkit.py\<close>) is a sequence of pandas table
  transformations. The embedding works on typed tables, the shape the tables have after the
  cleaning functions: a numeric column holds numbers or NaN, a channel column holds strings,
  a date column holds calendar dates or NaT.

  \<^item> A number is a \<open>real\<close>; a numeric cell of a table that the code is given, and every
    counter that it sums or counts, is a \<open>real option\<close>, \<open>None\<close> being NaN. Sums are exact: the
    rounding of a double and the overflow of a sum are outside the model.
  \<^item> A cell of a ratio column is a \<open>float64\<close>, what numpy's division leaves there: a finite
    number, one of the two infinities, or NaN.
  \<^item> A date is a day number; a date cell is a \<open>date option\<close>, \<open>None\<close> being NaT.
  \<^item> A table is a list of rows (records) together with one flag for each optional column
    that the code tests with \<^verbatim>\<open>in df.columns\<close> or reads with \<^verbatim>\<open>df.get\<close>. The field of a row
    for a column that the table does not have is not read.
  \<^item> The columns that the code indexes without a test (\<^verbatim>\<open>Date\<close>, \<^verbatim>\<open>Channel\<close>, \<^verbatim>\<open>Sessions\<close> and
    \<^verbatim>\<open>Clicks\<close> of the sessions, \<^verbatim>\<open>Order_id\<close> and \<^verbatim>\<open>Revenue_gbp\<close> of the orders) are fields
    without a flag. An \<^verbatim>\<open>Order_id\<close> is a number, a string, or missing.

  The cleaning functions, which work on untyped tables, and the effect of every function on
  the tables it is given are modelled further down, on a store of table objects. Reading
  and writing files and drawing charts are not modelled.
\<close>

type_synonym date = int
type_synonym num = "real option"

datatype float64 = Fin real | PosInf | NegInf | NaN64

datatype py_error = AttributeError | KeyError | TypeError | ValueError

datatype ident = IdNum int | IdStr string

record session_row =
  s_Date :: "date option"
  s_Channel :: string
  s_Sessions :: num
  s_Clicks :: num
  s_Spend_gbp :: num
  s_Adj_spend_gbp :: num
  s_Spend :: num

record sessions_df =
  has_Spend_gbp :: bool
  has_Adj_spend_gbp :: bool
  has_Spend :: bool
  s_rows :: "session_row list"

record order_row =
  o_Order_date :: "date option"
  o_Date :: "date option"
  o_Channel_ft :: string
  o_Channel :: string
  o_Order_id :: "ident option"
  o_Revenue_gbp :: num

record orders_df =
  has_Order_date :: bool
  has_Date :: bool
  has_Channel_ft :: bool
  has_Channel :: bool
  o_rows :: "order_row list"

text \<open>The frames that \<^verbatim>\<open>compute_daily_channel_kpis\<close> builds: \<^verbatim>\<open>s_agg\<close>, \<^verbatim>\<open>o_agg\<close>, the merged
  frame and the frame it returns.\<close>

record s_agg_row =
  a_Date :: "date option"
  a_Channel :: string
  a_Sessions :: num
  a_Clicks :: num
  a_Spend :: num

record o_agg_row =
  g_Date :: "date option"
  g_Channel :: string
  g_Orders :: num
  g_Revenue :: num

record merged_row =
  m_Date :: "date option"
  m_Channel :: string
  m_Sessions :: num
  m_Clicks :: num
  m_Spend :: num
  m_Orders :: num
  m_Revenue :: num

record daily_row =
  d_Date :: "date option"
  d_Channel :: string
  d_Sessions :: num
  d_Clicks :: num
  d_Spend :: num
  d_Orders :: num
  d_Revenue :: num
  d_CVR :: float64
  d_CPC_calc :: float64
  d_CAC :: float64
  d_AOV :: float64
  d_ROAS :: float64

text \<open>The frames of \<^verbatim>\<open>channel_summary\<close>: \<^verbatim>\<open>agg\<close> before and after the ratio columns.\<close>

record agg_row =
  t_Channel :: string
  t_Sessions :: num
  t_Clicks :: num
  t_Spend :: num
  t_Orders :: num
  t_Revenue :: num

record summary_row =
  c_Channel :: string
  c_Sessions :: num
  c_Clicks :: num
  c_Spend :: num
  c_Orders :: num
  c_Revenue :: num
  c_CVR :: float64
  c_CPC :: float64
  c_CAC :: float64
  c_AOV :: float64
  c_ROAS :: float64

text \<open>The per-date totals of \<^verbatim>\<open>simple_response_curve\<close>.\<close>

record date_total =
  dt_Date :: date
  dt_Revenue :: num
  dt_Spend :: num


section \<open>The pandas and numpy operations the code calls\<close>

text \<open>\<^verbatim>\<open>Series.fillna(v)\<close>: NaN becomes \<open>v\<close>.\<close>

definition fillna :: "real \<Rightarrow> num \<Rightarrow> num" where
  "fillna v x = (case x of None \<Rightarrow> Some v | Some y \<Rightarrow> Some y)"

text \<open>\<^verbatim>\<open>sum\<close> of a column or of a group: NaN is skipped, the empty sum is 0.\<close>

definition nansum :: "num list \<Rightarrow> real" where
  "nansum xs = sum_list (map (\<lambda>x. case x of None \<Rightarrow> 0 | Some v \<Rightarrow> v) xs)"

text \<open>\<^verbatim>\<open>nunique\<close>: the number of distinct values, NaN not counted.\<close>

definition nunique :: "'a option list \<Rightarrow> nat" where
  "nunique xs = length (remdups (List.map_filter (\<lambda>x. x) xs))"

text \<open>
  \<^verbatim>\<open>groupby(keys)\<close>: a row whose key is missing belongs to no group; the groups come in
  ascending order of their keys. \<open>key\<close> gives the key of a row, \<open>None\<close> when a key cell is
  missing.
\<close>

definition group_keys :: "('r \<Rightarrow> 'k option) \<Rightarrow> 'r list \<Rightarrow> ('k::linorder) list" where
  "group_keys key rows = sort (remdups (List.map_filter key rows))"

definition group_rows :: "('r \<Rightarrow> 'k option) \<Rightarrow> 'k \<Rightarrow> 'r list \<Rightarrow> 'r list" where
  "group_rows key k rows = filter (\<lambda>r. key r = Some k) rows"

text \<open>
  \<^verbatim>\<open>pd.to_datetime(col).dt.date\<close> on a column of dates: a date stays the date, NaT stays NaT.
\<close>

definition to_datetime_date :: "date option \<Rightarrow> date option" where
  "to_datetime_date d = d"

text \<open>The comparison \<^verbatim>\<open>col > 0\<close> is false on NaN.\<close>

definition gt0 :: "num \<Rightarrow> bool" where
  "gt0 x = (case x of None \<Rightarrow> False | Some v \<Rightarrow> 0 < v)"

text \<open>
  The range of a double. The largest finite double is \<open>2 ^ 1024 - 2 ^ 971\<close>; a result whose
  magnitude reaches \<open>2 ^ 1024 - 2 ^ 970\<close>, half a step above it, is rounded to the infinity of
  its sign. Below that bound the model keeps the result as it is: the rounding to 53 bits
  and the underflow of a tiny result are not modelled.
\<close>

definition double_overflow :: real where
  "double_overflow = 2 ^ 1024 - 2 ^ 970"

definition to_float64 :: "real \<Rightarrow> float64" where
  "to_float64 x =
     (if double_overflow \<le> x then PosInf
      else if x \<le> - double_overflow then NegInf
      else Fin x)"

text \<open>
  The quotient \<^verbatim>\<open>numer / den\<close> of two columns, cell by cell, as numpy computes it: NaN where
  an operand is NaN; where the divisor is 0, NaN for 0 / 0 and otherwise the infinity that
  has the sign of the dividend (numpy warns and does not raise; the sign of a zero is not
  modelled); elsewhere the quotient, an infinity when it is beyond the range of a double.
\<close>

definition ndiv :: "num \<Rightarrow> num \<Rightarrow> float64" where
  "ndiv x y =
     (case x of None \<Rightarrow> NaN64
      | Some a \<Rightarrow> (case y of None \<Rightarrow> NaN64
                  | Some b \<Rightarrow> if b = 0
                              then (if a = 0 then NaN64 else if 0 < a then PosInf else NegInf)
                              else to_float64 (a / b)))"

definition np_where :: "bool \<Rightarrow> float64 \<Rightarrow> float64 \<Rightarrow> float64" where
  "np_where c x y = (if c then x else y)"

text \<open>\<^verbatim>\<open>np.where(den > 0, numer / den, np.nan)\<close>, the form of all ten ratio columns.\<close>

definition ratio :: "num \<Rightarrow> num \<Rightarrow> float64" where
  "ratio numer den = np_where (gt0 den) (ndiv numer den) NaN64"


section \<open>\<^verbatim>\<open>compute_daily_channel_kpis\<close>\<close>

text \<open>
  \<^verbatim>\<open>s.get("Adj_spend_gbp", s.get("Spend_gbp", 0.0))\<close>: \<^verbatim>\<open>DataFrame.get\<close> gives the column when
  the table has it and the default otherwise, so the value is a column or the float 0.0.
\<close>

datatype got = Series "session_row \<Rightarrow> num" | Scalar real

definition df_get :: "bool \<Rightarrow> (session_row \<Rightarrow> num) \<Rightarrow> got \<Rightarrow> got" where
  "df_get has col dflt = (if has then Series col else dflt)"

definition spend_source :: "sessions_df \<Rightarrow> got" where
  "spend_source s =
     df_get (has_Adj_spend_gbp s) s_Adj_spend_gbp
       (df_get (has_Spend_gbp s) s_Spend_gbp (Scalar 0))"

text \<open>
  \<^verbatim>\<open>s["Spend"] = (...).fillna(0.0)\<close>: a float has no \<^verbatim>\<open>fillna\<close>, so the statement raises
  \<^verbatim>\<open>AttributeError\<close> when the table has neither spend column.
\<close>

definition assign_Spend :: "sessions_df \<Rightarrow> py_error + sessions_df" where
  "assign_Spend s =
     (case spend_source s of
        Scalar v \<Rightarrow> Inl AttributeError
      | Series col \<Rightarrow>
          Inr (s\<lparr>has_Spend := True,
                 s_rows := map (\<lambda>r. r\<lparr>s_Spend := fillna 0 (col r)\<rparr>) (s_rows s)\<rparr>))"

text \<open>\<^verbatim>\<open>s["Date"] = pd.to_datetime(s["Date"]).dt.date\<close>\<close>

definition assign_Date :: "sessions_df \<Rightarrow> sessions_df" where
  "assign_Date s = s\<lparr>s_rows := map (\<lambda>r. r\<lparr>s_Date := to_datetime_date (s_Date r)\<rparr>) (s_rows s)\<rparr>"

definition s_key :: "session_row \<Rightarrow> (date \<times> string) option" where
  "s_key r = map_option (\<lambda>d. (d, s_Channel r)) (s_Date r)"

text \<open>\<^verbatim>\<open>s.groupby(["Date", "Channel"], as_index=False).agg(...)\<close>\<close>

definition sessions_agg :: "sessions_df \<Rightarrow> s_agg_row list" where
  "sessions_agg s =
     map (\<lambda>k. let g = group_rows s_key k (s_rows s) in
            \<lparr>a_Date = Some (fst k), a_Channel = snd k,
             a_Sessions = Some (nansum (map s_Sessions g)),
             a_Clicks = Some (nansum (map s_Clicks g)),
             a_Spend = Some (nansum (map s_Spend g))\<rparr>)
         (group_keys s_key (s_rows s))"

text \<open>The channel column of the orders: \<^verbatim>\<open>chan_col\<close> is one of two column names.\<close>

datatype chan_col = Channel_ft_col | Channel_col

definition chan_cell :: "chan_col \<Rightarrow> order_row \<Rightarrow> string" where
  "chan_cell c r = (case c of Channel_ft_col \<Rightarrow> o_Channel_ft r | Channel_col \<Rightarrow> o_Channel r)"

definition choose_chan_col :: "orders_df \<Rightarrow> chan_col option" where
  "choose_chan_col ords =
     (if has_Channel_ft ords then Some Channel_ft_col
      else (if has_Channel ords then Some Channel_col else None))"

text \<open>\<^verbatim>\<open>o["Channel_ft"] = "All"\<close>\<close>

definition assign_All :: "orders_df \<Rightarrow> orders_df" where
  "assign_All ords =
     ords\<lparr>has_Channel_ft := True,
          o_rows := map (\<lambda>r. r\<lparr>o_Channel_ft := ''All''\<rparr>) (o_rows ords)\<rparr>"

text \<open>\<^verbatim>\<open>if chan_col is None: o["Channel_ft"] = "All"; chan_col = "Channel_ft"\<close>\<close>

definition resolve_channel :: "orders_df \<Rightarrow> orders_df \<times> chan_col" where
  "resolve_channel ords =
     (case choose_chan_col ords of
        None \<Rightarrow> (assign_All ords, Channel_ft_col)
      | Some c \<Rightarrow> (ords, c))"

text \<open>
  \<^verbatim>\<open>o["Date"] = pd.to_datetime(o["Order_date"]).dt.date\<close>; reading a column that the table
  does not have raises \<^verbatim>\<open>KeyError\<close>.
\<close>

definition assign_order_Date :: "orders_df \<Rightarrow> py_error + orders_df" where
  "assign_order_Date ords =
     (if has_Order_date ords then
        Inr (ords\<lparr>has_Date := True,
                  o_rows := map (\<lambda>r. r\<lparr>o_Date := to_datetime_date (o_Order_date r)\<rparr>)
                              (o_rows ords)\<rparr>)
      else Inl KeyError)"

text \<open>\<^verbatim>\<open>if "Date" not in o.columns: o["Date"] = ...\<close>\<close>

definition ensure_Date :: "orders_df \<Rightarrow> py_error + orders_df" where
  "ensure_Date ords = (if has_Date ords then Inr ords else assign_order_Date ords)"

definition o_key :: "chan_col \<Rightarrow> order_row \<Rightarrow> (date \<times> string) option" where
  "o_key c r = map_option (\<lambda>d. (d, chan_cell c r)) (o_Date r)"

text \<open>\<^verbatim>\<open>o.groupby(["Date", chan_col], as_index=False).agg(...).rename(...)\<close>\<close>

definition orders_agg :: "chan_col \<Rightarrow> orders_df \<Rightarrow> o_agg_row list" where
  "orders_agg c ords =
     map (\<lambda>k. let g = group_rows (o_key c) k (o_rows ords) in
            \<lparr>g_Date = Some (fst k), g_Channel = snd k,
             g_Orders = Some (real (nunique (map o_Order_id g))),
             g_Revenue = Some (nansum (map o_Revenue_gbp g))\<rparr>)
         (group_keys (o_key c) (o_rows ords))"

text \<open>
  \<^verbatim>\<open>pd.merge(s_agg, o_agg, on=["Date", "Channel"], how="left")\<close>: every left row, in order,
  once for each right row with the same key, and once with NaN in the right columns when
  there is none.
\<close>

definition join_row :: "s_agg_row \<Rightarrow> num \<Rightarrow> num \<Rightarrow> merged_row" where
  "join_row l orders revenue =
     \<lparr>m_Date = a_Date l, m_Channel = a_Channel l, m_Sessions = a_Sessions l,
      m_Clicks = a_Clicks l, m_Spend = a_Spend l, m_Orders = orders, m_Revenue = revenue\<rparr>"

definition matches :: "s_agg_row \<Rightarrow> o_agg_row list \<Rightarrow> o_agg_row list" where
  "matches l R = filter (\<lambda>r. g_Date r = a_Date l \<and> g_Channel r = a_Channel l) R"

definition merge_left :: "s_agg_row list \<Rightarrow> o_agg_row list \<Rightarrow> merged_row list" where
  "merge_left L R =
     concat (map (\<lambda>l. case matches l R of
                        [] \<Rightarrow> [join_row l None None]
                      | m # ms \<Rightarrow> map (\<lambda>r. join_row l (g_Orders r) (g_Revenue r)) (m # ms)) L)"

text \<open>\<^verbatim>\<open>.fillna({"Orders": 0, "Revenue": 0.0})\<close>\<close>

definition fill_orders_revenue :: "merged_row \<Rightarrow> merged_row" where
  "fill_orders_revenue r = r\<lparr>m_Orders := fillna 0 (m_Orders r), m_Revenue := fillna 0 (m_Revenue r)\<rparr>"

text \<open>The five assignments under \<^verbatim>\<open># KPI definitions\<close>.\<close>

definition kpi_columns :: "merged_row \<Rightarrow> daily_row" where
  "kpi_columns r =
     \<lparr>d_Date = m_Date r, d_Channel = m_Channel r, d_Sessions = m_Sessions r,
      d_Clicks = m_Clicks r, d_Spend = m_Spend r, d_Orders = m_Orders r,
      d_Revenue = m_Revenue r,
      d_CVR = ratio (m_Orders r) (m_Clicks r),
      d_CPC_calc = ratio (m_Spend r) (m_Clicks r),
      d_CAC = ratio (m_Spend r) (m_Orders r),
      d_AOV = ratio (m_Revenue r) (m_Orders r),
      d_ROAS = ratio (m_Revenue r) (m_Spend r)\<rparr>"

definition compute_daily_channel_kpis ::
    "sessions_df \<Rightarrow> orders_df \<Rightarrow> py_error + daily_row list" where
  "compute_daily_channel_kpis sessions orders =
     (case assign_Spend sessions of
        Inl e \<Rightarrow> Inl e
      | Inr s1 \<Rightarrow>
          (let s = assign_Date s1;
               s_agg = sessions_agg s;
               (o1, chan_col) = resolve_channel orders
           in case ensure_Date o1 of
                Inl e \<Rightarrow> Inl e
              | Inr ords \<Rightarrow>
                  (let o_agg = orders_agg chan_col ords;
                       df = map fill_orders_revenue (merge_left s_agg o_agg)
                   in Inr (map kpi_columns df))))"


section \<open>\<^verbatim>\<open>channel_summary\<close>\<close>

definition c_key :: "daily_row \<Rightarrow> string option" where
  "c_key r = Some (d_Channel r)"

text \<open>\<^verbatim>\<open>df.groupby("Channel", as_index=False).agg(...)\<close>\<close>

definition channel_agg :: "daily_row list \<Rightarrow> agg_row list" where
  "channel_agg df =
     map (\<lambda>c. let g = group_rows c_key c df in
            \<lparr>t_Channel = c,
             t_Sessions = Some (nansum (map d_Sessions g)),
             t_Clicks = Some (nansum (map d_Clicks g)),
             t_Spend = Some (nansum (map d_Spend g)),
             t_Orders = Some (nansum (map d_Orders g)),
             t_Revenue = Some (nansum (map d_Revenue g))\<rparr>)
         (group_keys c_key df)"

text \<open>The five assignments \<^verbatim>\<open>agg["CVR"] = ...\<close> to \<^verbatim>\<open>agg["ROAS"] = ...\<close>.\<close>

definition summary_ratios :: "agg_row \<Rightarrow> summary_row" where
  "summary_ratios r =
     \<lparr>c_Channel = t_Channel r, c_Sessions = t_Sessions r, c_Clicks = t_Clicks r,
      c_Spend = t_Spend r, c_Orders = t_Orders r, c_Revenue = t_Revenue r,
      c_CVR = ratio (t_Orders r) (t_Clicks r),
      c_CPC = ratio (t_Spend r) (t_Clicks r),
      c_CAC = ratio (t_Spend r) (t_Orders r),
      c_AOV = ratio (t_Revenue r) (t_Orders r),
      c_ROAS = ratio (t_Revenue r) (t_Spend r)\<rparr>"

text \<open>
  \<^verbatim>\<open>agg.sort_values("ROAS", ascending=False)\<close>. pandas sorts the rows whose key is not NaN
  and puts the rows whose key is NaN after them, in their order in the table. For a
  descending sort it reverses the rows, sorts them in ascending order of the key and
  reverses the result. The ascending sort is numpy's; the model takes a stable one, and the
  order that numpy gives to rows with equal keys is not part of any statement below. The
  order of the keys is that of the doubles: \<open>-inf\<close> below and \<open>inf\<close> above every finite number,
  here the lexicographic order of the pairs that \<open>float64_key\<close> gives.
\<close>

fun float64_key :: "float64 \<Rightarrow> int \<times> real" where
  "float64_key (Fin v) = (0, v)"
| "float64_key PosInf = (1, 0)"
| "float64_key NegInf = (- 1, 0)"
| "float64_key NaN64 = (0, 0)"

definition roas_key :: "summary_row \<Rightarrow> int \<times> real" where
  "roas_key r = float64_key (c_ROAS r)"

definition sort_values_ROAS :: "summary_row list \<Rightarrow> summary_row list" where
  "sort_values_ROAS rows =
     (let non_nans = filter (\<lambda>r. c_ROAS r \<noteq> NaN64) rows;
          nans = filter (\<lambda>r. c_ROAS r = NaN64) rows
      in rev (sort_key roas_key (rev non_nans)) @ nans)"

definition channel_summary :: "daily_row list \<Rightarrow> summary_row list" where
  "channel_summary df = sort_values_ROAS (map summary_ratios (channel_agg df))"


section \<open>\<^verbatim>\<open>simple_response_curve\<close>\<close>

text \<open>
  \<^verbatim>\<open>daily_df.groupby("Date", as_index=False).agg(...)\<close> and
  \<^verbatim>\<open>.dropna(subset=["Revenue", "Spend"])\<close>.
\<close>

definition date_totals :: "daily_row list \<Rightarrow> date_total list" where
  "date_totals daily_df =
     map (\<lambda>d. let g = group_rows d_Date d daily_df in
            \<lparr>dt_Date = d,
             dt_Revenue = Some (nansum (map d_Revenue g)),
             dt_Spend = Some (nansum (map d_Spend g))\<rparr>)
         (group_keys d_Date daily_df)"

definition dropna :: "date_total list \<Rightarrow> date_total list" where
  "dropna df = filter (\<lambda>r. dt_Revenue r \<noteq> None \<and> dt_Spend r \<noteq> None) df"

text \<open>\<^verbatim>\<open>df["Spend"].values\<close> of a column without NaN.\<close>

definition col_values :: "num list \<Rightarrow> real list" where
  "col_values xs = List.map_filter (\<lambda>x. x) xs"

text \<open>
  \<^verbatim>\<open>np.polyfit(x, y, 1)\<close> is numpy's; the function takes it as the parameter \<open>polyfit\<close>, which
  gives the pair (slope, intercept). The result is \<open>None\<close> for \<^verbatim>\<open>(None, None, None)\<close> and
  \<open>Some (a, b)\<close> for \<^verbatim>\<open>(a, b, out)\<close>; the directory and the figure are not modelled. What
  numpy's solver computes in floating point is not modelled either: the two numbers of a
  fit are those that the parameter gives.
\<close>

type_synonym polyfit1 = "real list \<Rightarrow> real list \<Rightarrow> real \<times> real"

definition simple_response_curve :: "polyfit1 \<Rightarrow> daily_row list \<Rightarrow> (real \<times> real) option" where
  "simple_response_curve polyfit daily_df =
     (let df = dropna (date_totals daily_df) in
      if length df < 2 \<or> nansum (map dt_Spend df) = 0 then None
      else (let (b, a) = polyfit (col_values (map dt_Spend df)) (col_values (map dt_Revenue df))
            in Some (a, b)))"

text \<open>
  The tables and numbers that \<^verbatim>\<open>main\<close> computes from the cleaned tables: \<^verbatim>\<open>daily\<close>, \<^verbatim>\<open>chan\<close>
  and the pair \<^verbatim>\<open>(a, b)\<close>. An exception of the first call ends the run. The files that
  \<^verbatim>\<open>main\<close> writes between these calls are not modelled.
\<close>

definition main_core ::
    "polyfit1 \<Rightarrow> sessions_df \<Rightarrow> orders_df \<Rightarrow>
       py_error + (daily_row list \<times> summary_row list \<times> (real \<times> real) option)" where
  "main_core polyfit sessions orders =
     (case compute_daily_channel_kpis sessions orders of
        Inl e \<Rightarrow> Inl e
      | Inr daily \<Rightarrow>
          (let chan = channel_summary daily;
               fit = simple_response_curve polyfit daily
           in Inr (daily, chan, fit)))"


section \<open>Tables as objects\<close>

text \<open>
  The functions above compute the tables. The ones below follow the same statements on a
  store of table objects, to tell an assignment to a column of an existing table from the
  construction of a new table. A reference is an index into the store; \<^verbatim>\<open>df.copy()\<close>,
  \<^verbatim>\<open>groupby(...).agg(...)\<close>, \<^verbatim>\<open>pd.merge\<close>, \<^verbatim>\<open>fillna\<close> and \<^verbatim>\<open>sort_values\<close> make a new object,
  \<^verbatim>\<open>df[c] = v\<close> writes to the object \<open>df\<close> refers to. A program returns the new store and
  a value or an exception. A reference outside the store, or to a table of another kind
  than the statement expects, does not occur in a run; the model has \<open>TypeError\<close> there.
\<close>

text \<open>
  The cells of a table as read from the workbook, before cleaning, and such a table as the
  list of its columns.
\<close>

datatype cell = Num real | NaN | Str string | Stamp date nat | Day date | NaT

type_synonym raw_df = "(string \<times> cell list) list"

datatype frame =
    RawF raw_df
  | SessionsF sessions_df
  | OrdersF orders_df
  | SAggF "s_agg_row list"
  | OAggF "o_agg_row list"
  | MergedF "merged_row list"
  | DailyF "daily_row list"
  | AggF "agg_row list"
  | SummaryF "summary_row list"

type_synonym store = "frame list"
type_synonym ref = nat
type_synonym 'a prog = "store \<Rightarrow> store \<times> (py_error + 'a)"

definition p_return :: "'a \<Rightarrow> 'a prog" where
  "p_return x = (\<lambda>h. (h, Inr x))"

definition p_raise :: "py_error \<Rightarrow> 'a prog" where
  "p_raise e = (\<lambda>h. (h, Inl e))"

definition p_result :: "py_error + 'a \<Rightarrow> 'a prog" where
  "p_result r = (\<lambda>h. (h, r))"

definition p_bind :: "'a prog \<Rightarrow> ('a \<Rightarrow> 'b prog) \<Rightarrow> 'b prog" where
  "p_bind m f = (\<lambda>h. case m h of (h', Inl e) \<Rightarrow> (h', Inl e) | (h', Inr x) \<Rightarrow> f x h')"

definition new_frame :: "frame \<Rightarrow> ref prog" where
  "new_frame f = (\<lambda>h. (h @ [f], Inr (length h)))"

definition read_frame :: "ref \<Rightarrow> frame prog" where
  "read_frame a = (\<lambda>h. if a < length h then (h, Inr (h ! a)) else (h, Inl TypeError))"

definition write_frame :: "ref \<Rightarrow> frame \<Rightarrow> unit prog" where
  "write_frame a f = (\<lambda>h. if a < length h then (h[a := f], Inr ()) else (h, Inl TypeError))"

definition read_as :: "(frame \<Rightarrow> 'a option) \<Rightarrow> ref \<Rightarrow> 'a prog" where
  "read_as proj a =
     p_bind (read_frame a) (\<lambda>f. case proj f of None \<Rightarrow> p_raise TypeError | Some v \<Rightarrow> p_return v)"

definition as_raw :: "frame \<Rightarrow> raw_df option" where
  "as_raw f = (case f of RawF v \<Rightarrow> Some v | _ \<Rightarrow> None)"

definition as_sessions :: "frame \<Rightarrow> sessions_df option" where
  "as_sessions f = (case f of SessionsF v \<Rightarrow> Some v | _ \<Rightarrow> None)"

definition as_orders :: "frame \<Rightarrow> orders_df option" where
  "as_orders f = (case f of OrdersF v \<Rightarrow> Some v | _ \<Rightarrow> None)"

definition as_s_agg :: "frame \<Rightarrow> s_agg_row list option" where
  "as_s_agg f = (case f of SAggF v \<Rightarrow> Some v | _ \<Rightarrow> None)"

definition as_o_agg :: "frame \<Rightarrow> o_agg_row list option" where
  "as_o_agg f = (case f of OAggF v \<Rightarrow> Some v | _ \<Rightarrow> None)"

definition as_merged :: "frame \<Rightarrow> merged_row list option" where
  "as_merged f = (case f of MergedF v \<Rightarrow> Some v | _ \<Rightarrow> None)"

definition as_daily :: "frame \<Rightarrow> daily_row list option" where
  "as_daily f = (case f of DailyF v \<Rightarrow> Some v | _ \<Rightarrow> None)"

definition as_agg :: "frame \<Rightarrow> agg_row list option" where
  "as_agg f = (case f of AggF v \<Rightarrow> Some v | _ \<Rightarrow> None)"

definition as_summary :: "frame \<Rightarrow> summary_row list option" where
  "as_summary f = (case f of SummaryF v \<Rightarrow> Some v | _ \<Rightarrow> None)"

text \<open>\<^verbatim>\<open>df.copy()\<close>\<close>

definition copy_frame :: "ref \<Rightarrow> ref prog" where
  "copy_frame a = p_bind (read_frame a) new_frame"


subsection \<open>\<^verbatim>\<open>clean_sessions\<close> and \<^verbatim>\<open>clean_orders\<close>\<close>

text \<open>
  The conversions of a column are pandas': \<^verbatim>\<open>pd.to_datetime(col).dt.date\<close>, which raises on
  a value it cannot parse, \<^verbatim>\<open>pd.to_numeric(col, errors="coerce")\<close> and
  \<^verbatim>\<open>col.astype(str).str.strip()\<close>. The cleaning functions take them as parameters.
\<close>

record pandas_lib =
  to_datetime_date_col :: "cell list \<Rightarrow> py_error + cell list"
  to_numeric_coerce :: "cell list \<Rightarrow> cell list"
  astype_str_strip :: "cell list \<Rightarrow> cell list"

text \<open>\<^verbatim>\<open>df[c] = v\<close> and \<^verbatim>\<open>df[c]\<close> on a table as read; \<^verbatim>\<open>if c in df.columns: ...\<close>.\<close>

definition raw_setitem :: "ref \<Rightarrow> string \<Rightarrow> cell list \<Rightarrow> unit prog" where
  "raw_setitem df c v =
     p_bind (read_as as_raw df) (\<lambda>f. write_frame df (RawF (AList.update c v f)))"

definition raw_getitem :: "ref \<Rightarrow> string \<Rightarrow> cell list prog" where
  "raw_getitem df c =
     p_bind (read_as as_raw df)
       (\<lambda>f. case map_of f c of None \<Rightarrow> p_raise KeyError | Some col \<Rightarrow> p_return col)"

definition if_column :: "ref \<Rightarrow> string \<Rightarrow> unit prog \<Rightarrow> unit prog" where
  "if_column df c body =
     p_bind (read_as as_raw df)
       (\<lambda>f. case map_of f c of None \<Rightarrow> p_return () | Some col \<Rightarrow> body)"

fun for_each :: "string list \<Rightarrow> (string \<Rightarrow> unit prog) \<Rightarrow> unit prog" where
  "for_each [] body = p_return ()"
| "for_each (c # cs) body = p_bind (body c) (\<lambda>u. for_each cs body)"

definition clean_sessions :: "pandas_lib \<Rightarrow> ref \<Rightarrow> ref prog" where
  "clean_sessions lib df0 =
     p_bind (copy_frame df0) (\<lambda>df.
     p_bind (if_column df ''Date''
               (p_bind (raw_getitem df ''Date'') (\<lambda>col.
                p_bind (p_result (to_datetime_date_col lib col)) (\<lambda>v.
                raw_setitem df ''Date'' v)))) (\<lambda>u.
     p_bind (for_each [''Sessions'', ''Clicks'', ''Spend_gbp'', ''Adj_spend_gbp'', ''CTR'', ''CPC'']
               (\<lambda>c. if_column df c
                  (p_bind (raw_getitem df c) (\<lambda>col.
                   raw_setitem df c (to_numeric_coerce lib col))))) (\<lambda>u.
     p_bind (for_each [''Channel'', ''Source'', ''Medium'', ''Campaign'', ''Department'']
               (\<lambda>c. if_column df c
                  (p_bind (raw_getitem df c) (\<lambda>col.
                   raw_setitem df c (astype_str_strip lib col))))) (\<lambda>u.
     p_return df))))"

definition clean_orders :: "pandas_lib \<Rightarrow> ref \<Rightarrow> ref prog" where
  "clean_orders lib df0 =
     p_bind (copy_frame df0) (\<lambda>df.
     p_bind (if_column df ''Order_date''
               (p_bind (raw_getitem df ''Order_date'') (\<lambda>col.
                p_bind (p_result (to_datetime_date_col lib col)) (\<lambda>v.
                p_bind (raw_setitem df ''Order_date'' v) (\<lambda>u.
                p_bind (raw_getitem df ''Order_date'') (\<lambda>col.
                raw_setitem df ''Date'' col)))))) (\<lambda>u.
     p_bind (if_column df ''Revenue_gbp''
               (p_bind (raw_getitem df ''Revenue_gbp'') (\<lambda>col.
                raw_setitem df ''Revenue_gbp'' (to_numeric_coerce lib col)))) (\<lambda>u.
     p_bind (if_column df ''Items''
               (p_bind (raw_getitem df ''Items'') (\<lambda>col.
                raw_setitem df ''Items'' (to_numeric_coerce lib col)))) (\<lambda>u.
     p_bind (for_each [''Channel_ft'', ''Channel'']
               (\<lambda>c. if_column df c
                  (p_bind (raw_getitem df c) (\<lambda>col.
                   raw_setitem df c (astype_str_strip lib col))))) (\<lambda>u.
     p_return df)))))"


subsection \<open>\<^verbatim>\<open>compute_daily_channel_kpis\<close> and \<^verbatim>\<open>channel_summary\<close> on the store\<close>

text \<open>
  Statement by statement as in the source. The five ratio columns are assigned to the
  merged table, and to \<^verbatim>\<open>agg\<close>, in one write each.
\<close>

definition compute_daily_channel_kpis_prog :: "ref \<Rightarrow> ref \<Rightarrow> ref prog" where
  "compute_daily_channel_kpis_prog sessions orders =
     p_bind (copy_frame sessions) (\<lambda>s.
     p_bind (read_as as_sessions s) (\<lambda>v.
     p_bind (p_result (assign_Spend v)) (\<lambda>v.
     p_bind (write_frame s (SessionsF v)) (\<lambda>u.
     p_bind (read_as as_sessions s) (\<lambda>v.
     p_bind (write_frame s (SessionsF (assign_Date v))) (\<lambda>u.
     p_bind (read_as as_sessions s) (\<lambda>v.
     p_bind (new_frame (SAggF (sessions_agg v))) (\<lambda>s_agg.
     p_bind (copy_frame orders) (\<lambda>ords.
     p_bind (read_as as_orders ords) (\<lambda>v.
     p_bind (case choose_chan_col v of
               Some c \<Rightarrow> p_return c
             | None \<Rightarrow> p_bind (write_frame ords (OrdersF (assign_All v)))
                         (\<lambda>u. p_return Channel_ft_col)) (\<lambda>chan_col.
     p_bind (read_as as_orders ords) (\<lambda>v.
     p_bind (if has_Date v then p_return ()
             else p_bind (p_result (assign_order_Date v))
                    (\<lambda>v. write_frame ords (OrdersF v))) (\<lambda>u.
     p_bind (read_as as_orders ords) (\<lambda>v.
     p_bind (new_frame (OAggF (orders_agg chan_col v))) (\<lambda>o_agg.
     p_bind (read_as as_s_agg s_agg) (\<lambda>l.
     p_bind (read_as as_o_agg o_agg) (\<lambda>r.
     p_bind (new_frame (MergedF (merge_left l r))) (\<lambda>merged.
     p_bind (read_as as_merged merged) (\<lambda>v.
     p_bind (new_frame (MergedF (map fill_orders_revenue v))) (\<lambda>df.
     p_bind (read_as as_merged df) (\<lambda>v.
     p_bind (write_frame df (DailyF (map kpi_columns v))) (\<lambda>u.
     p_return df))))))))))))))))))))))"

definition channel_summary_prog :: "ref \<Rightarrow> ref prog" where
  "channel_summary_prog df =
     p_bind (read_as as_daily df) (\<lambda>v.
     p_bind (new_frame (AggF (channel_agg v))) (\<lambda>agg.
     p_bind (read_as as_agg agg) (\<lambda>v.
     p_bind (write_frame agg (SummaryF (map summary_ratios v))) (\<lambda>u.
     p_bind (read_as as_summary agg) (\<lambda>v.
     new_frame (SummaryF (sort_values_ROAS v)))))))"


section \<open>Notions used in the statements\<close>

text \<open>
  The cell that line 65 of the source puts in the column \<^verbatim>\<open>Spend\<close> when the table has one of
  the two spend columns.
\<close>

definition Spend_cell :: "sessions_df \<Rightarrow> session_row \<Rightarrow> num" where
  "Spend_cell s r = fillna 0 (if has_Adj_spend_gbp s then s_Adj_spend_gbp r else s_Spend_gbp r)"

text \<open>
  The effective spend of a row in the words of the specification: the adjusted spend if
  present and not missing, else the raw spend, else 0.
\<close>

definition spec_effective_spend :: "sessions_df \<Rightarrow> session_row \<Rightarrow> real" where
  "spec_effective_spend s r =
     (case (if has_Adj_spend_gbp s then s_Adj_spend_gbp r else None) of
        Some a \<Rightarrow> a
      | None \<Rightarrow> (case (if has_Spend_gbp s then s_Spend_gbp r else None) of
                   Some v \<Rightarrow> v
                 | None \<Rightarrow> 0))"

text \<open>The channel, the date and the group of an order row, read from the orders table.\<close>

definition order_channel :: "orders_df \<Rightarrow> order_row \<Rightarrow> string" where
  "order_channel ords r =
     (if has_Channel_ft ords then o_Channel_ft r
      else if has_Channel ords then o_Channel r else ''All'')"

definition order_date :: "orders_df \<Rightarrow> order_row \<Rightarrow> date option" where
  "order_date ords r = (if has_Date ords then o_Date r else o_Order_date r)"

definition order_key :: "orders_df \<Rightarrow> order_row \<Rightarrow> (date \<times> string) option" where
  "order_key ords r = map_option (\<lambda>d. (d, order_channel ords r)) (order_date ords r)"

text \<open>The rows of \<^verbatim>\<open>s_agg\<close>, of \<^verbatim>\<open>o_agg\<close> and of the merged table for one group.\<close>

definition s_agg_group :: "sessions_df \<Rightarrow> date \<times> string \<Rightarrow> s_agg_row" where
  "s_agg_group s k =
     (let gs = group_rows s_key k (s_rows s) in
      \<lparr>a_Date = Some (fst k), a_Channel = snd k,
       a_Sessions = Some (nansum (map s_Sessions gs)),
       a_Clicks = Some (nansum (map s_Clicks gs)),
       a_Spend = Some (nansum (map (Spend_cell s) gs))\<rparr>)"

definition o_agg_group :: "orders_df \<Rightarrow> date \<times> string \<Rightarrow> o_agg_row" where
  "o_agg_group ords k =
     (let g = group_rows (order_key ords) k (o_rows ords) in
      \<lparr>g_Date = Some (fst k), g_Channel = snd k,
       g_Orders = Some (real (nunique (map o_Order_id g))),
       g_Revenue = Some (nansum (map o_Revenue_gbp g))\<rparr>)"

definition daily_group :: "sessions_df \<Rightarrow> orders_df \<Rightarrow> date \<times> string \<Rightarrow> merged_row" where
  "daily_group s ords k =
     (let gs = group_rows s_key k (s_rows s);
          go = group_rows (order_key ords) k (o_rows ords)
      in \<lparr>m_Date = Some (fst k), m_Channel = snd k,
          m_Sessions = Some (nansum (map s_Sessions gs)),
          m_Clicks = Some (nansum (map s_Clicks gs)),
          m_Spend = Some (nansum (map (Spend_cell s) gs)),
          m_Orders = Some (real (nunique (map o_Order_id go))),
          m_Revenue = Some (nansum (map o_Revenue_gbp go))\<rparr>)"

text \<open>
  A ratio in the words of the specification: missing when the denominator is not positive,
  the quotient otherwise; the quotient as a double, so an infinity when its magnitude is
  beyond the range.
\<close>

definition spec_ratio :: "real \<Rightarrow> real \<Rightarrow> float64" where
  "spec_ratio numer den =
     (if den \<le> 0 then NaN64
      else if double_overflow \<le> numer / den then PosInf
      else if numer / den \<le> - double_overflow then NegInf
      else Fin (numer / den))"

text \<open>
  What a cell \<open>q\<close> of a ratio column is to its two counters: missing exactly when the
  denominator is not positive; an infinity exactly when the denominator is positive and the
  quotient is beyond the range of a double, with the sign of the quotient; the quotient when
  the denominator is positive and the quotient is within the range.
\<close>

definition guarded_quotient :: "real \<Rightarrow> real \<Rightarrow> float64 \<Rightarrow> bool" where
  "guarded_quotient numer den q \<longleftrightarrow>
     (q = NaN64 \<longleftrightarrow> den \<le> 0) \<and>
     (q = PosInf \<longleftrightarrow> 0 < den \<and> double_overflow \<le> numer / den) \<and>
     (q = NegInf \<longleftrightarrow> 0 < den \<and> numer / den \<le> - double_overflow) \<and>
     (0 < den \<and> \<bar>numer / den\<bar> < double_overflow \<longrightarrow> q = Fin (numer / den))"

text \<open>The total of a column of the daily table over the rows of one channel.\<close>

definition channel_total :: "(daily_row \<Rightarrow> num) \<Rightarrow> string \<Rightarrow> daily_row list \<Rightarrow> real" where
  "channel_total col c df = nansum (map col (filter (\<lambda>d. d_Channel d = c) df))"

text \<open>
  The mean of the ratios of the days, of those that are finite numbers, which the summary
  does not take.
\<close>

fun finite_values :: "float64 list \<Rightarrow> real list" where
  "finite_values [] = []"
| "finite_values (Fin v # xs) = v # finite_values xs"
| "finite_values (x # xs) = finite_values xs"

definition mean_defined :: "float64 list \<Rightarrow> real" where
  "mean_defined xs = sum_list (finite_values xs) / real (length (finite_values xs))"

text \<open>
  The order of the summary: descending, a missing value after every value that is not
  missing. \<open>float64_le x y\<close> is \<open>x \<le> y\<close> on the doubles that are not NaN.
\<close>

fun float64_le :: "float64 \<Rightarrow> float64 \<Rightarrow> bool" where
  "float64_le (Fin x) (Fin y) = (x \<le> y)"
| "float64_le NegInf y = True"
| "float64_le x PosInf = True"
| "float64_le x y = False"

fun roas_before :: "float64 \<Rightarrow> float64 \<Rightarrow> bool" where
  "roas_before x NaN64 = True"
| "roas_before NaN64 y = False"
| "roas_before x y = float64_le y x"

text \<open>
  The totals of Spend and of Revenue of the dates of a daily table, in the order of the
  dates: the vectors that \<^verbatim>\<open>simple_response_curve\<close> passes to \<^verbatim>\<open>np.polyfit\<close>.
\<close>

definition spend_by_date :: "daily_row list \<Rightarrow> real list" where
  "spend_by_date daily =
     map (\<lambda>d. nansum (map d_Spend (filter (\<lambda>r. d_Date r = Some d) daily)))
       (group_keys d_Date daily)"

definition revenue_by_date :: "daily_row list \<Rightarrow> real list" where
  "revenue_by_date daily =
     map (\<lambda>d. nansum (map d_Revenue (filter (\<lambda>r. d_Date r = Some d) daily)))
       (group_keys d_Date daily)"

text \<open>
  A least-squares line in closed form. It is not numpy's algorithm; it stands for
  \<^verbatim>\<open>np.polyfit\<close> where a statement that holds of every fit is tried on an example.
\<close>

definition ols_line :: polyfit1 where
  "ols_line xs ys =
     (let n = real (length xs);
          sx = sum_list xs; sy = sum_list ys;
          sxx = sum_list (map (\<lambda>x. x * x) xs);
          sxy = sum_list (map (\<lambda>(x, y). x * y) (zip xs ys));
          den = n * sxx - sx * sx
      in if den = 0 then (0, sy / n)
         else (let b = (n * sxy - sx * sy) / den in (b, (sy - b * sx) / n)))"

text \<open>
  \<open>keeps n l m Q\<close>: run from a store of at least \<open>n\<close> and at least \<open>l\<close> objects, the
  program \<open>m\<close> removes no object, leaves the first \<open>n\<close> objects as they are, and a value
  \<open>x\<close> it returns satisfies \<open>Q x k\<close>, \<open>k\<close> being the number of objects of the store it
  leaves.
\<close>

definition keeps :: "nat \<Rightarrow> nat \<Rightarrow> 'a prog \<Rightarrow> ('a \<Rightarrow> nat \<Rightarrow> bool) \<Rightarrow> bool" where
  "keeps n l m Q =
     (\<forall>h. n \<le> length h \<longrightarrow> l \<le> length h \<longrightarrow>
        (case m h of (h', r) \<Rightarrow>
           length h \<le> length h' \<and> take n h' = take n h \<and>
           (\<forall>x. r = Inr x \<longrightarrow> Q x (length h'))))"


section \<open>Examples\<close>

text \<open>
  One session row with both spend columns, the adjusted spend missing and the raw spend 7;
  an orders table without rows.
\<close>

definition ex_sessions_adj_missing :: sessions_df where
  "ex_sessions_adj_missing =
     \<lparr>has_Spend_gbp = True, has_Adj_spend_gbp = True, has_Spend = False,
      s_rows = [\<lparr>s_Date = Some 1, s_Channel = ''Search'', s_Sessions = Some 10,
                 s_Clicks = Some 5, s_Spend_gbp = Some 7, s_Adj_spend_gbp = None,
                 s_Spend = None\<rparr>]\<rparr>"

definition ex_orders_empty :: orders_df where
  "ex_orders_empty =
     \<lparr>has_Order_date = True, has_Date = True, has_Channel_ft = True, has_Channel = False,
      o_rows = []\<rparr>"

text \<open>
  One session row with the spend 1 / 16 and one order of its group with the revenue
  \<open>2 ^ 1022\<close> (about 4.5e307), two finite doubles, and the daily table of the two. The
  quotient of the revenue and the spend is \<open>2 ^ 1026\<close>, beyond the range of a double.
\<close>

definition ex_sessions_small_spend :: sessions_df where
  "ex_sessions_small_spend =
     \<lparr>has_Spend_gbp = True, has_Adj_spend_gbp = False, has_Spend = False,
      s_rows = [\<lparr>s_Date = Some 1, s_Channel = ''Search'', s_Sessions = Some 10,
                 s_Clicks = Some 5, s_Spend_gbp = Some (1 / 16), s_Adj_spend_gbp = None,
                 s_Spend = None\<rparr>]\<rparr>"

definition ex_orders_large_revenue :: orders_df where
  "ex_orders_large_revenue =
     \<lparr>has_Order_date = True, has_Date = True, has_Channel_ft = True, has_Channel = False,
      o_rows = [\<lparr>o_Order_date = Some 1, o_Date = Some 1, o_Channel_ft = ''Search'',
                 o_Channel = [], o_Order_id = Some (IdNum 1),
                 o_Revenue_gbp = Some (2 ^ 1022)\<rparr>]\<rparr>"

definition ex_daily_overflow :: "daily_row list" where
  "ex_daily_overflow =
     [\<lparr>d_Date = Some 1, d_Channel = ''Search'', d_Sessions = Some 10, d_Clicks = Some 5,
       d_Spend = Some (1 / 16), d_Orders = Some 1, d_Revenue = Some (2 ^ 1022),
       d_CVR = Fin (1 / 5), d_CPC_calc = Fin (1 / 80), d_CAC = Fin (1 / 16),
       d_AOV = Fin (2 ^ 1022), d_ROAS = PosInf\<rparr>]"

text \<open>
  A daily table of one channel on two days, with ROAS 1 and 3: the mean of the ratios is 2,
  the ratio of the sums is 1000 / 400.
\<close>

definition ex_daily_two_days :: "daily_row list" where
  "ex_daily_two_days =
     [\<lparr>d_Date = Some 1, d_Channel = ''Search'', d_Sessions = Some 50, d_Clicks = Some 10,
       d_Spend = Some 100, d_Orders = Some 2, d_Revenue = Some 100,
       d_CVR = Fin (1 / 5), d_CPC_calc = Fin 10, d_CAC = Fin 50, d_AOV = Fin 50,
       d_ROAS = Fin 1\<rparr>,
      \<lparr>d_Date = Some 2, d_Channel = ''Search'', d_Sessions = Some 100, d_Clicks = Some 30,
       d_Spend = Some 300, d_Orders = Some 3, d_Revenue = Some 900,
       d_CVR = Fin (1 / 10), d_CPC_calc = Fin 10, d_CAC = Fin 100, d_AOV = Fin 300,
       d_ROAS = Fin 3\<rparr>]"

text \<open>
  A daily table of three channels on one day; the channel without spend has no ROAS.
\<close>

definition ex_daily_three_channels :: "daily_row list" where
  "ex_daily_three_channels =
     [\<lparr>d_Date = Some 1, d_Channel = ''Email'', d_Sessions = Some 20, d_Clicks = Some 10,
       d_Spend = Some 50, d_Orders = Some 1, d_Revenue = Some 50,
       d_CVR = Fin (1 / 10), d_CPC_calc = Fin 5, d_CAC = Fin 50, d_AOV = Fin 50,
       d_ROAS = Fin 1\<rparr>,
      \<lparr>d_Date = Some 1, d_Channel = ''Organic'', d_Sessions = Some 30, d_Clicks = Some 0,
       d_Spend = Some 0, d_Orders = Some 2, d_Revenue = Some 80,
       d_CVR = NaN64, d_CPC_calc = NaN64, d_CAC = Fin 0, d_AOV = Fin 40,
       d_ROAS = NaN64\<rparr>,
      \<lparr>d_Date = Some 1, d_Channel = ''Search'', d_Sessions = Some 40, d_Clicks = Some 20,
       d_Spend = Some 100, d_Orders = Some 3, d_Revenue = Some 300,
       d_CVR = Fin (3 / 20), d_CPC_calc = Fin 5, d_CAC = Fin (100 / 3), d_AOV = Fin 100,
       d_ROAS = Fin 3\<rparr>]"

text \<open>
  Sessions of two channels on one day, with the raw spend column only, and two orders of
  the channel Search.
\<close>

definition ex_sessions_two_groups :: sessions_df where
  "ex_sessions_two_groups =
     \<lparr>has_Spend_gbp = True, has_Adj_spend_gbp = False, has_Spend = False,
      s_rows = [\<lparr>s_Date = Some 1, s_Channel = ''Email'', s_Sessions = Some 20,
                 s_Clicks = Some 4, s_Spend_gbp = Some 10, s_Adj_spend_gbp = None,
                 s_Spend = None\<rparr>,
                \<lparr>s_Date = Some 1, s_Channel = ''Search'', s_Sessions = Some 30,
                 s_Clicks = Some 6, s_Spend_gbp = Some 20, s_Adj_spend_gbp = None,
                 s_Spend = None\<rparr>,
                \<lparr>s_Date = Some 1, s_Channel = ''Search'', s_Sessions = Some 10,
                 s_Clicks = Some 2, s_Spend_gbp = None, s_Adj_spend_gbp = None,
                 s_Spend = None\<rparr>]\<rparr>"

definition ex_orders_search :: orders_df where
  "ex_orders_search =
     \<lparr>has_Order_date = True, has_Date = True, has_Channel_ft = True, has_Channel = False,
      o_rows = [\<lparr>o_Order_date = Some 1, o_Date = Some 1, o_Channel_ft = ''Search'',
                 o_Channel = [], o_Order_id = Some (IdNum 1), o_Revenue_gbp = Some 10\<rparr>,
                \<lparr>o_Order_date = Some 1, o_Date = Some 1, o_Channel_ft = ''Search'',
                 o_Channel = [], o_Order_id = Some (IdNum 2), o_Revenue_gbp = Some 30\<rparr>]\<rparr>"

text \<open>A third order that repeats the Order_id 1 of the channel Search.\<close>

definition ex_order_duplicate :: order_row where
  "ex_order_duplicate =
     \<lparr>o_Order_date = Some 1, o_Date = Some 1, o_Channel_ft = ''Search'',
      o_Channel = [], o_Order_id = Some (IdNum 1), o_Revenue_gbp = Some 10\<rparr>"

text \<open>
  An orders table with neither channel column and no \<^verbatim>\<open>Date\<close> column, and sessions of the
  channels All and Search.
\<close>

definition ex_orders_no_channel :: orders_df where
  "ex_orders_no_channel =
     \<lparr>has_Order_date = True, has_Date = False, has_Channel_ft = False, has_Channel = False,
      o_rows = [\<lparr>o_Order_date = Some 1, o_Date = None, o_Channel_ft = [],
                 o_Channel = [], o_Order_id = Some (IdNum 1), o_Revenue_gbp = Some 10\<rparr>,
                \<lparr>o_Order_date = Some 1, o_Date = None, o_Channel_ft = [],
                 o_Channel = [], o_Order_id = Some (IdStr ''A-2''), o_Revenue_gbp = Some 30\<rparr>]\<rparr>"

definition ex_sessions_all :: sessions_df where
  "ex_sessions_all =
     \<lparr>has_Spend_gbp = True, has_Adj_spend_gbp = False, has_Spend = False,
      s_rows = [\<lparr>s_Date = Some 1, s_Channel = ''Search'', s_Sessions = Some 30,
                 s_Clicks = Some 6, s_Spend_gbp = Some 20, s_Adj_spend_gbp = None,
                 s_Spend = None\<rparr>,
                \<lparr>s_Date = Some 1, s_Channel = ''All'', s_Sessions = Some 10,
                 s_Clicks = Some 2, s_Spend_gbp = Some 5, s_Adj_spend_gbp = None,
                 s_Spend = None\<rparr>]\<rparr>"


text \<open>The daily table of the sessions of two channels on one day (see above), as a list.\<close>

definition ex_daily_one_date :: "daily_row list" where
  "ex_daily_one_date =
     [\<lparr>d_Date = Some 1, d_Channel = ''Email'', d_Sessions = Some 20, d_Clicks = Some 4,
           d_Spend = Some 10, d_Orders = Some 0, d_Revenue = Some 0,
           d_CVR = Fin 0, d_CPC_calc = Fin (5 / 2), d_CAC = NaN64, d_AOV = NaN64,
           d_ROAS = Fin 0\<rparr>,
          \<lparr>d_Date = Some 1, d_Channel = ''Search'', d_Sessions = Some 40, d_Clicks = Some 8,
           d_Spend = Some 20, d_Orders = Some 2, d_Revenue = Some 40,
           d_CVR = Fin (1 / 4), d_CPC_calc = Fin (5 / 2), d_CAC = Fin 10, d_AOV = Fin 20,
           d_ROAS = Fin 2\<rparr>]"

text \<open>A daily table of two dates without spend.\<close>

definition ex_daily_no_spend :: "daily_row list" where
  "ex_daily_no_spend =
     [\<lparr>d_Date = Some 1, d_Channel = ''Organic'', d_Sessions = Some 20, d_Clicks = Some 4,
           d_Spend = Some 0, d_Orders = Some 1, d_Revenue = Some 30,
           d_CVR = Fin (1 / 4), d_CPC_calc = Fin 0, d_CAC = Fin 0, d_AOV = Fin 30,
           d_ROAS = NaN64\<rparr>,
          \<lparr>d_Date = Some 2, d_Channel = ''Organic'', d_Sessions = Some 40, d_Clicks = Some 8,
           d_Spend = Some 0, d_Orders = Some 2, d_Revenue = Some 40,
           d_CVR = Fin (1 / 4), d_CPC_calc = Fin 0, d_CAC = Fin 0, d_AOV = Fin 20,
           d_ROAS = NaN64\<rparr>]"

text \<open>
  Conversions for the example, which do to the cells of the example tables what pandas
  does: a timestamp becomes its date and a string that is no date raises; a number stays
  and any other cell becomes NaN; a string loses the blanks at its ends.
\<close>

definition ex_lib :: pandas_lib where
  "ex_lib =
     \<lparr>to_datetime_date_col =
        (\<lambda>col. if list_ex (\<lambda>c. case c of Str s \<Rightarrow> True | _ \<Rightarrow> False) col then Inl ValueError
               else Inr (map (\<lambda>c. case c of Stamp d t \<Rightarrow> Day d | Day d \<Rightarrow> Day d | _ \<Rightarrow> NaT) col)),
      to_numeric_coerce = map (\<lambda>c. case c of Num x \<Rightarrow> Num x | _ \<Rightarrow> NaN),
      astype_str_strip =
        map (\<lambda>c. case c of
                   Str s \<Rightarrow> Str (rev (dropWhile (\<lambda>ch. ch = CHR '' '')
                                   (rev (dropWhile (\<lambda>ch. ch = CHR '' '') s))))
                 | _ \<Rightarrow> Str ''nan'')\<rparr>"

text \<open>Two tables as read from a workbook.\<close>

definition ex_raw_sessions :: raw_df where
  "ex_raw_sessions =
     [(''Date'', [Stamp 1 0, Stamp 1 3600]),
      (''Channel'', [Str '' Search'', Str ''Email '']),
      (''Sessions'', [Num 30, Str ''n/a'']),
      (''Note'', [Str ''ok'', NaN])]"

definition ex_raw_orders :: raw_df where
  "ex_raw_orders =
     [(''Order_id'', [Num 1, Num 2]),
      (''Order_date'', [Stamp 1 7200, Stamp 1 100]),
      (''Revenue_gbp'', [Num 10, Str ''30 GBP'']),
      (''Channel_ft'', [Str ''Search '', Str ''Search''])]"

text \<open>A store that holds the two of them and three tables of the examples above.\<close>

definition ex_store :: store where
  "ex_store =
     [RawF ex_raw_sessions, RawF ex_raw_orders, SessionsF ex_sessions_two_groups,
      OrdersF ex_orders_search, DailyF ex_daily_one_date]"


section \<open>Grouping, merging and the shape of the daily table\<close>

text \<open>
  The daily table has one row for each group of the sessions, in the order of the keys;
  the row of a group holds the sums of the session rows and, of the order rows of the
  same group, the number of distinct Order_id values and the sum of Revenue.
\<close>

lemma set_map_filter: "set (List.map_filter f xs) = {y. \<exists>x\<in>set xs. f x = Some y}"
  by (induction xs) (auto simp: List.map_filter_simps split: option.splits)

lemma set_group_keys: "set (group_keys key rows) = {k. \<exists>r\<in>set rows. key r = Some k}"
  by (simp add: group_keys_def set_map_filter)

lemma distinct_group_keys: "distinct (group_keys key rows)"
  by (simp add: group_keys_def)

lemma sorted_group_keys: "sorted (group_keys key rows)"
  by (simp add: group_keys_def)

lemma group_rows_empty: "k \<notin> set (group_keys key rows) \<Longrightarrow> group_rows key k rows = []"
  by (auto simp: set_group_keys group_rows_def filter_empty_conv)

lemma filter_map_distinct_key:
  assumes "\<And>k'. Q (g k') \<longleftrightarrow> k' = k" "distinct ks"
  shows "filter Q (map g ks) = (if k \<in> set ks then [g k] else [])"
  using assms(2)
proof (induction ks)
  case Nil
  then show ?case by simp
next
  case (Cons a ks)
  then show ?case using assms(1) by auto
qed

lemma assign_Spend_Inr:
  "has_Adj_spend_gbp s \<or> has_Spend_gbp s \<Longrightarrow>
   assign_Spend s = Inr (s\<lparr>has_Spend := True, s_rows := map (\<lambda>r. r\<lparr>s_Spend := Spend_cell s r\<rparr>) (s_rows s)\<rparr>)"
  by (auto simp: assign_Spend_def spend_source_def df_get_def Spend_cell_def)

lemma assign_Spend_Inl:
  "\<not> has_Adj_spend_gbp s \<Longrightarrow> \<not> has_Spend_gbp s \<Longrightarrow> assign_Spend s = Inl AttributeError"
  by (auto simp: assign_Spend_def spend_source_def df_get_def)

lemma group_rows_map:
  "(\<And>r. key (f r) = key' r) \<Longrightarrow> group_rows key k (map f rows) = map f (group_rows key' k rows)"
  by (simp add: group_rows_def filter_map comp_def)

lemma group_keys_map:
  "(\<And>r. key (f r) = key' r) \<Longrightarrow> group_keys key (map f rows) = group_keys key' rows"
  by (simp add: group_keys_def List.map_filter_def filter_map comp_def)

lemma sessions_agg_assigned:
  assumes "has_Adj_spend_gbp s \<or> has_Spend_gbp s" "assign_Spend s = Inr s1"
  shows "sessions_agg (assign_Date s1) =
     map (\<lambda>k. let gs = group_rows s_key k (s_rows s) in
            \<lparr>a_Date = Some (fst k), a_Channel = snd k,
             a_Sessions = Some (nansum (map s_Sessions gs)),
             a_Clicks = Some (nansum (map s_Clicks gs)),
             a_Spend = Some (nansum (map (Spend_cell s) gs))\<rparr>)
         (group_keys s_key (s_rows s))"
proof -
  let ?f = "\<lambda>r. r\<lparr>s_Spend := Spend_cell s r\<rparr>"
  have s1: "s_rows (assign_Date s1) = map ?f (s_rows s)"
    using assms assign_Spend_Inr[OF assms(1)] by (auto simp: assign_Date_def to_datetime_date_def)
  have k: "\<And>r. s_key (?f r) = s_key r" by (simp add: s_key_def)
  show ?thesis
    unfolding sessions_agg_def s1 group_keys_map[of s_key ?f, OF k] group_rows_map[of s_key ?f, OF k]
    by (simp add: Let_def comp_def)
qed

lemma orders_prepared:
  assumes "has_Date ords \<or> has_Order_date ords"
  shows "\<exists>f o'. ensure_Date (fst (resolve_channel ords)) = Inr o' \<and> o_rows o' = map f (o_rows ords) \<and>
          (\<forall>r. o_key (snd (resolve_channel ords)) (f r) = order_key ords r \<and>
               o_Order_id (f r) = o_Order_id r \<and> o_Revenue_gbp (f r) = o_Revenue_gbp r)"
proof (cases "choose_chan_col ords")
  case None
  then have nc: "\<not> has_Channel_ft ords" "\<not> has_Channel ords"
    by (auto simp: choose_chan_col_def split: if_splits)
  show ?thesis
  proof (cases "has_Date ords")
    case True
    show ?thesis
      apply (rule exI[of _ "\<lambda>r. r\<lparr>o_Channel_ft := ''All''\<rparr>"])
      using None nc True
      by (simp add: resolve_channel_def ensure_Date_def assign_All_def assign_order_Date_def o_key_def order_key_def
          order_channel_def order_date_def chan_cell_def)
  next
    case False
    with assms have od: "has_Order_date ords" by simp
    show ?thesis
      apply (rule exI[of _ "\<lambda>r. r\<lparr>o_Channel_ft := ''All'', o_Date := o_Order_date r\<rparr>"])
      using None nc False od
      by (simp add: resolve_channel_def ensure_Date_def assign_All_def assign_order_Date_def o_key_def order_key_def
          order_channel_def order_date_def chan_cell_def to_datetime_date_def comp_def)
  qed
next
  case (Some c)
  then have cc: "c = (if has_Channel_ft ords then Channel_ft_col else Channel_col)"
     "has_Channel_ft ords \<or> has_Channel ords"
    by (auto simp: choose_chan_col_def split: if_splits)
  show ?thesis
  proof (cases "has_Date ords")
    case True
    show ?thesis
      apply (rule exI[of _ "\<lambda>r. r"])
      using Some cc True
      by (auto simp add: resolve_channel_def ensure_Date_def assign_All_def assign_order_Date_def o_key_def order_key_def
          order_channel_def order_date_def chan_cell_def)
  next
    case False
    with assms have od: "has_Order_date ords" by simp
    show ?thesis
      apply (rule exI[of _ "\<lambda>r. r\<lparr>o_Date := o_Order_date r\<rparr>"])
      using Some cc False od
      by (auto simp add: resolve_channel_def ensure_Date_def assign_All_def assign_order_Date_def o_key_def order_key_def
          order_channel_def order_date_def chan_cell_def to_datetime_date_def)
  qed
qed

lemma orders_agg_prepared:
  assumes "has_Date ords \<or> has_Order_date ords"
    and "resolve_channel ords = (o1, cc)" and "ensure_Date o1 = Inr o'"
  shows "orders_agg cc o' = map (o_agg_group ords) (group_keys (order_key ords) (o_rows ords))"
proof -
  from orders_prepared[OF assms(1)] assms(2,3)
  obtain f where f: "o_rows o' = map f (o_rows ords)"
    "\<And>r. o_key cc (f r) = order_key ords r"
    "\<And>r. o_Order_id (f r) = o_Order_id r" "\<And>r. o_Revenue_gbp (f r) = o_Revenue_gbp r"
    by auto
  show ?thesis
    unfolding orders_agg_def f(1) group_keys_map[of "o_key cc" f, OF f(2)]
      group_rows_map[of "o_key cc" f, OF f(2)] o_agg_group_def
    by (simp add: Let_def comp_def f(3,4))
qed

lemma matches_o_agg_group:
  assumes "distinct ks"
  shows "matches (s_agg_group s k) (map (o_agg_group ords) ks) =
     (if k \<in> set ks then [o_agg_group ords k] else [])"
  unfolding matches_def
proof (rule filter_map_distinct_key)
  show "distinct ks" by (rule assms)
next
  fix k'
  show "(g_Date (o_agg_group ords k') = a_Date (s_agg_group s k) \<and>
         g_Channel (o_agg_group ords k') = a_Channel (s_agg_group s k)) = (k' = k)"
    by (cases k', cases k) (auto simp: o_agg_group_def s_agg_group_def Let_def)
qed

lemma fill_merge_row:
  "map fill_orders_revenue
     (case matches (s_agg_group s k) (map (o_agg_group ords) (group_keys (order_key ords) (o_rows ords))) of
        [] \<Rightarrow> [join_row (s_agg_group s k) None None]
      | m # ms \<Rightarrow> map (\<lambda>r. join_row (s_agg_group s k) (g_Orders r) (g_Revenue r)) (m # ms))
   = [daily_group s ords k]"
proof -
  have m: "matches (s_agg_group s k) (map (o_agg_group ords) (group_keys (order_key ords) (o_rows ords)))
      = (if k \<in> set (group_keys (order_key ords) (o_rows ords)) then [o_agg_group ords k] else [])"
    by (rule matches_o_agg_group[OF distinct_group_keys])
  show ?thesis
  proof (cases "k \<in> set (group_keys (order_key ords) (o_rows ords))")
    case True
    then show ?thesis
      unfolding m
      by (simp add: fill_orders_revenue_def join_row_def
          o_agg_group_def s_agg_group_def daily_group_def Let_def fillna_def)
  next
    case False
    then show ?thesis
      unfolding m
      by (simp add: fill_orders_revenue_def join_row_def
          s_agg_group_def daily_group_def Let_def fillna_def group_rows_empty nunique_def nansum_def
          List.map_filter_simps)
  qed
qed

lemma fill_merge_left:
  "map fill_orders_revenue
     (merge_left (map (s_agg_group s) ks)
        (map (o_agg_group ords) (group_keys (order_key ords) (o_rows ords))))
   = map (daily_group s ords) ks"
proof (induction ks)
  case Nil
  show ?case by (simp add: merge_left_def)
next
  case (Cons k ks)
  have "map fill_orders_revenue (merge_left (map (s_agg_group s) (k # ks))
          (map (o_agg_group ords) (group_keys (order_key ords) (o_rows ords))))
      = map fill_orders_revenue
         (case matches (s_agg_group s k) (map (o_agg_group ords) (group_keys (order_key ords) (o_rows ords))) of
            [] \<Rightarrow> [join_row (s_agg_group s k) None None]
          | m # ms \<Rightarrow> map (\<lambda>r. join_row (s_agg_group s k) (g_Orders r) (g_Revenue r)) (m # ms))
        @ map fill_orders_revenue (merge_left (map (s_agg_group s) ks)
          (map (o_agg_group ords) (group_keys (order_key ords) (o_rows ords))))"
    by (simp add: merge_left_def)
  also have "\<dots> = daily_group s ords k # map (daily_group s ords) ks"
    unfolding fill_merge_row Cons.IH by simp
  finally show ?case by simp
qed

lemma compute_daily_Inr:
  assumes "has_Adj_spend_gbp s \<or> has_Spend_gbp s" and "has_Date ords \<or> has_Order_date ords"
  shows "compute_daily_channel_kpis s ords =
           Inr (map (\<lambda>k. kpi_columns (daily_group s ords k)) (group_keys s_key (s_rows s)))"
proof -
  obtain s1 where s1: "assign_Spend s = Inr s1"
    using assign_Spend_Inr[OF assms(1)] by simp
  obtain o1 cc where rc: "resolve_channel ords = (o1, cc)" by (cases "resolve_channel ords")
  obtain o' where o': "ensure_Date o1 = Inr o'"
    using orders_prepared[OF assms(2)] rc by auto
  have sa: "sessions_agg (assign_Date s1) = map (s_agg_group s) (group_keys s_key (s_rows s))"
    using sessions_agg_assigned[OF assms(1) s1] by (simp add: s_agg_group_def)
  have oa: "orders_agg cc o' = map (o_agg_group ords) (group_keys (order_key ords) (o_rows ords))"
    by (rule orders_agg_prepared[OF assms(2) rc o'])
  have "compute_daily_channel_kpis s ords =
      Inr (map kpi_columns (map fill_orders_revenue
        (merge_left (map (s_agg_group s) (group_keys s_key (s_rows s)))
           (map (o_agg_group ords) (group_keys (order_key ords) (o_rows ords))))))"
    by (simp add: compute_daily_channel_kpis_def s1 rc o' sa oa Let_def del: map_map)
  then show ?thesis
    unfolding fill_merge_left by (simp add: comp_def)
qed

lemma compute_daily_AttributeError:
  "\<not> has_Adj_spend_gbp s \<Longrightarrow> \<not> has_Spend_gbp s \<Longrightarrow>
   compute_daily_channel_kpis s ords = Inl AttributeError"
  by (simp add: compute_daily_channel_kpis_def assign_Spend_Inl)

lemma compute_daily_KeyError:
  assumes "has_Adj_spend_gbp s \<or> has_Spend_gbp s" "\<not> has_Date ords" "\<not> has_Order_date ords"
  shows "compute_daily_channel_kpis s ords = Inl KeyError"
proof -
  obtain s1 where s1: "assign_Spend s = Inr s1"
    using assign_Spend_Inr[OF assms(1)] by simp
  obtain o1 cc where rc: "resolve_channel ords = (o1, cc)" by (cases "resolve_channel ords")
  have "ensure_Date o1 = Inl KeyError"
    using rc assms(2,3) by (auto simp: resolve_channel_def ensure_Date_def assign_All_def assign_order_Date_def split: option.splits)
  then show ?thesis
    by (simp add: compute_daily_channel_kpis_def s1 rc Let_def)
qed

lemma compute_daily_InrD:
  assumes "compute_daily_channel_kpis s ords = Inr daily"
  shows "has_Adj_spend_gbp s \<or> has_Spend_gbp s" and "has_Date ords \<or> has_Order_date ords"
    and "daily = map (\<lambda>k. kpi_columns (daily_group s ords k)) (group_keys s_key (s_rows s))"
proof -
  show sp: "has_Adj_spend_gbp s \<or> has_Spend_gbp s"
    using assms compute_daily_AttributeError[of s ords] by auto
  show dt: "has_Date ords \<or> has_Order_date ords"
    using assms compute_daily_KeyError[OF sp, of ords] by auto
  show "daily = map (\<lambda>k. kpi_columns (daily_group s ords k)) (group_keys s_key (s_rows s))"
    using assms compute_daily_Inr[OF sp dt] by simp
qed

lemma daily_keys:
  assumes "compute_daily_channel_kpis s ords = Inr daily"
  shows "map (\<lambda>row. (d_Date row, d_Channel row)) daily =
         map (\<lambda>k. (Some (fst k), snd k)) (group_keys s_key (s_rows s))"
  unfolding compute_daily_InrD(3)[OF assms]
  by (simp add: kpi_columns_def daily_group_def Let_def comp_def)

lemma nunique_card: "nunique xs = card {i. Some i \<in> set xs}"
proof -
  have "set (List.map_filter (\<lambda>x. x) xs) = {i. Some i \<in> set xs}"
    by (auto simp: set_map_filter)
  then show ?thesis
    by (simp add: nunique_def length_remdups_card_conv)
qed

lemma nunique_group_card:
  "nunique (map o_Order_id (group_rows key k rows)) =
     card {i. \<exists>x\<in>set rows. key x = Some k \<and> o_Order_id x = Some i}"
  unfolding nunique_card by (rule arg_cong[of _ _ card]) (auto simp: group_rows_def image_iff)

lemma daily_group_insert_duplicate:
  assumes "x \<in> set (pre @ post)" "order_key ords dup = order_key ords x"
    "o_Order_id dup = o_Order_id x" "o_rows ords = pre @ post"
  shows "m_Orders (daily_group s (ords\<lparr>o_rows := pre @ dup # post\<rparr>) k) =
         m_Orders (daily_group s ords k)"
proof -
  have key: "order_key (ords\<lparr>o_rows := pre @ dup # post\<rparr>) = order_key ords"
    by (simp add: fun_eq_iff order_key_def order_channel_def order_date_def)
  have "{i. \<exists>y\<in>set (pre @ dup # post). order_key ords y = Some k \<and> o_Order_id y = Some i} =
        {i. \<exists>y\<in>set (pre @ post). order_key ords y = Some k \<and> o_Order_id y = Some i}"
    using assms(1,2,3) by auto
  then show ?thesis
    by (simp add: daily_group_def Let_def key nunique_group_card assms(4))
qed

lemma resolved_channel_cells:
  "map (chan_cell (snd (resolve_channel ords))) (o_rows (fst (resolve_channel ords))) =
   map (order_channel ords) (o_rows ords)"
  by (auto simp: resolve_channel_def choose_chan_col_def assign_All_def chan_cell_def
      order_channel_def)


section \<open>Ratios and the rows of the channel summary\<close>

lemma double_overflow_pos: "0 < double_overflow"
proof -
  have "(2::real) ^ 970 < 2 ^ 1024" by (rule power_strict_increasing) simp_all
  then show ?thesis by (simp add: double_overflow_def)
qed

lemma double_overflow_ge: "2 ^ 1023 \<le> double_overflow"
proof -
  have "(2::real) ^ 970 \<le> 2 ^ 1023" by (rule power_increasing) simp_all
  moreover have "(2::real) ^ 1024 = 2 * 2 ^ 1023" by simp
  ultimately show ?thesis unfolding double_overflow_def by linarith
qed

lemma double_overflow_le: "double_overflow \<le> 2 ^ 1024"
  by (simp add: double_overflow_def)

lemma to_float64_Fin: "\<bar>x\<bar> < 2 ^ 1023 \<Longrightarrow> to_float64 x = Fin x"
  using double_overflow_ge by (simp add: to_float64_def abs_less_iff)

lemma to_float64_PosInf: "2 ^ 1024 \<le> x \<Longrightarrow> to_float64 x = PosInf"
  using double_overflow_le by (simp add: to_float64_def)

lemma ratio_guarded:
  "ratio (Some n) (Some d) = (if d \<le> 0 then NaN64 else to_float64 (n / d))"
  by (simp add: ratio_def np_where_def gt0_def ndiv_def)

lemma ratio_guarded_quotient: "guarded_quotient n d (ratio (Some n) (Some d))"
proof -
  define x where "x = n / d"
  have "guarded_quotient n d (if d \<le> 0 then NaN64 else to_float64 x)"
    unfolding guarded_quotient_def x_def[symmetric] using double_overflow_pos
    by (auto simp: to_float64_def abs_less_iff)
  then show ?thesis unfolding ratio_guarded x_def .
qed

lemma guarded_quotient_unique: "guarded_quotient n d q \<longleftrightarrow> q = spec_ratio n d"
proof -
  define x where "x = n / d"
  show ?thesis
    unfolding guarded_quotient_def spec_ratio_def x_def[symmetric] using double_overflow_pos
    by (cases q) (auto simp: abs_less_iff)
qed

lemma ratio_Some: "ratio (Some n) (Some d) = spec_ratio n d"
  by (simp add: ratio_guarded spec_ratio_def to_float64_def)

lemma spec_ratio_NaN: "d \<le> 0 \<Longrightarrow> spec_ratio n d = NaN64"
  by (simp add: spec_ratio_def)

lemma spec_ratio_Fin: "0 < d \<Longrightarrow> \<bar>n / d\<bar> < 2 ^ 1023 \<Longrightarrow> spec_ratio n d = Fin (n / d)"
  using to_float64_Fin[of "n / d"] by (simp add: ratio_Some[symmetric] ratio_guarded)

lemma mset_sort_values_ROAS: "mset (sort_values_ROAS rows) = mset rows"
  by (simp add: sort_values_ROAS_def Let_def)

lemma set_sort_values_ROAS: "set (sort_values_ROAS rows) = set rows"
  using mset_sort_values_ROAS[of rows] by (metis set_mset_mset)

lemma channel_summary_rows:
  "r \<in> set (channel_summary df) \<longleftrightarrow>
     (\<exists>c\<in>d_Channel ` set df. r = summary_ratios
        \<lparr>t_Channel = c,
         t_Sessions = Some (nansum (map d_Sessions (filter (\<lambda>d. d_Channel d = c) df))),
         t_Clicks = Some (nansum (map d_Clicks (filter (\<lambda>d. d_Channel d = c) df))),
         t_Spend = Some (nansum (map d_Spend (filter (\<lambda>d. d_Channel d = c) df))),
         t_Orders = Some (nansum (map d_Orders (filter (\<lambda>d. d_Channel d = c) df))),
         t_Revenue = Some (nansum (map d_Revenue (filter (\<lambda>d. d_Channel d = c) df)))\<rparr>)"
  by (auto simp: channel_summary_def set_sort_values_ROAS channel_agg_def set_group_keys
      group_rows_def c_key_def Let_def image_iff)

lemma distinct_channel_summary: "distinct (map c_Channel (channel_summary df))"
proof -
  have keys: "map c_Channel (map summary_ratios (channel_agg df)) = group_keys c_key df"
    by (simp add: channel_agg_def summary_ratios_def comp_def Let_def)
  have "mset (map c_Channel (channel_summary df))
      = image_mset c_Channel (mset (sort_values_ROAS (map summary_ratios (channel_agg df))))"
    by (simp add: channel_summary_def)
  also have "\<dots> = mset (map c_Channel (map summary_ratios (channel_agg df)))"
    unfolding mset_sort_values_ROAS by (simp add: multiset.map_comp)
  finally have "mset (map c_Channel (channel_summary df)) = mset (group_keys c_key df)"
    unfolding keys .
  then show ?thesis
    using distinct_group_keys[of c_key df] by (metis mset_eq_imp_distinct_iff)
qed

lemma roas_before_key:
  "a \<noteq> NaN64 \<Longrightarrow> b \<noteq> NaN64 \<Longrightarrow> roas_before a b \<longleftrightarrow> float64_key b \<le> float64_key a"
  by (cases a; cases b) simp_all

lemma roas_before_defined:
  "c_ROAS x \<noteq> NaN64 \<Longrightarrow> c_ROAS y \<noteq> NaN64 \<Longrightarrow>
   roas_before (c_ROAS x) (c_ROAS y) \<longleftrightarrow> roas_key y \<le> roas_key x"
  by (simp add: roas_key_def roas_before_key)

lemma sorted_desc_defined:
  assumes "\<forall>r\<in>set rows. c_ROAS r \<noteq> NaN64"
  shows "sorted_wrt roas_before (map c_ROAS (rev (sort_key roas_key rows)))"
proof -
  have "sorted (map roas_key (sort_key roas_key rows))" by (rule sorted_sort_key)
  then have "sorted_wrt (\<lambda>x y. roas_key x \<le> roas_key y) (sort_key roas_key rows)"
    by (simp add: sorted_wrt_map)
  then have "sorted_wrt (\<lambda>x y. roas_key y \<le> roas_key x) (rev (sort_key roas_key rows))"
    by (simp add: sorted_wrt_rev)
  then have "sorted_wrt (\<lambda>x y. roas_before (c_ROAS x) (c_ROAS y)) (rev (sort_key roas_key rows))"
    by (rule sorted_wrt_mono_rel[rotated]) (use assms in \<open>simp add: roas_before_defined\<close>)
  then show ?thesis by (simp add: sorted_wrt_map)
qed

lemma sorted_sort_values_ROAS:
  "sorted_wrt roas_before (map c_ROAS (sort_values_ROAS rows))"
proof -
  have a: "sorted_wrt roas_before
      (map c_ROAS (rev (sort_key roas_key (rev (filter (\<lambda>r. c_ROAS r \<noteq> NaN64) rows)))))"
    by (rule sorted_desc_defined) simp
  have b: "sorted_wrt roas_before (map c_ROAS (filter (\<lambda>r. c_ROAS r = NaN64) rows))"
  proof -
    have "sorted_wrt (\<lambda>x y. roas_before (c_ROAS x) (c_ROAS y))
            (filter (\<lambda>r. c_ROAS r = NaN64) rows)"
      by (rule sorted_wrt_mono_rel[of _ "\<lambda>x y. True"]) simp_all
    then show ?thesis by (simp add: sorted_wrt_map)
  qed
  have c: "\<forall>x\<in>set (map c_ROAS (rev (sort_key roas_key (rev (filter (\<lambda>r. c_ROAS r \<noteq> NaN64) rows))))).
           \<forall>y\<in>set (map c_ROAS (filter (\<lambda>r. c_ROAS r = NaN64) rows)). roas_before x y"
    by auto
  show ?thesis
    unfolding sort_values_ROAS_def Let_def map_append sorted_wrt_append
    using a b c by blast
qed


section \<open>The totals of the dates\<close>

lemma dropna_date_totals: "dropna (date_totals daily) = date_totals daily"
  by (simp add: dropna_def date_totals_def Let_def filter_map comp_def)

lemma length_date_totals:
  "length (date_totals daily) = card {d. \<exists>r\<in>set daily. d_Date r = Some d}"
proof -
  have "length (date_totals daily) = length (group_keys d_Date daily)"
    by (simp add: date_totals_def)
  also have "\<dots> = card (set (group_keys d_Date daily))"
    by (simp add: distinct_card distinct_group_keys)
  finally show ?thesis by (simp add: set_group_keys)
qed

lemma sum_list_delta:
  fixes c :: real
  assumes "distinct ks"
  shows "sum_list (map (\<lambda>k. (if k = a then c else 0) + g k) ks) =
         (if a \<in> set ks then c else 0) + sum_list (map g ks)"
  using assms by (induction ks) auto

lemma nansum_groups:
  assumes "distinct ks" "\<forall>r\<in>set rows. \<forall>k. key r = Some k \<longrightarrow> k \<in> set ks"
  shows "sum_list (map (\<lambda>k. nansum (map f (group_rows key k rows))) ks) =
         nansum (map f (filter (\<lambda>r. key r \<noteq> None) rows))"
  using assms(2)
proof (induction rows)
  case Nil
  then show ?case by (simp add: group_rows_def nansum_def)
next
  case (Cons r rows)
  then have IH: "sum_list (map (\<lambda>k. nansum (map f (group_rows key k rows))) ks) =
         nansum (map f (filter (\<lambda>r. key r \<noteq> None) rows))" by simp
  show ?case
  proof (cases "key r")
    case None
    then show ?thesis using IH by (simp add: group_rows_def)
  next
    case (Some a)
    with Cons.prems have a: "a \<in> set ks" by simp
    let ?c = "case f r of None \<Rightarrow> 0 | Some v \<Rightarrow> v"
    have "(\<lambda>k. nansum (map f (group_rows key k (r # rows)))) =
          (\<lambda>k. (if k = a then ?c else 0) + nansum (map f (group_rows key k rows)))"
      using Some by (auto simp: fun_eq_iff group_rows_def nansum_def)
    then have "sum_list (map (\<lambda>k. nansum (map f (group_rows key k (r # rows)))) ks) =
          ?c + sum_list (map (\<lambda>k. nansum (map f (group_rows key k rows))) ks)"
      using sum_list_delta[OF assms(1), of a ?c] a by simp
    then show ?thesis using IH Some by (simp add: nansum_def)
  qed
qed

lemma total_spend_date_totals:
  "nansum (map dt_Spend (date_totals daily)) =
   nansum (map d_Spend (filter (\<lambda>r. d_Date r \<noteq> None) daily))"
proof -
  have "nansum (map dt_Spend (date_totals daily)) =
        sum_list (map (\<lambda>k. nansum (map d_Spend (group_rows d_Date k daily))) (group_keys d_Date daily))"
    by (simp add: date_totals_def nansum_def comp_def Let_def)
  also have "\<dots> = nansum (map d_Spend (filter (\<lambda>r. d_Date r \<noteq> None) daily))"
    by (rule nansum_groups) (auto simp: distinct_group_keys set_group_keys)
  finally show ?thesis .
qed

lemma col_values_Some: "col_values (map (\<lambda>x. Some (f x)) xs) = map f xs"
  by (induction xs) (simp_all add: col_values_def List.map_filter_simps)

lemma spend_values_date_totals:
  "col_values (map dt_Spend (date_totals daily)) =
   map (\<lambda>d. nansum (map d_Spend (group_rows d_Date d daily))) (group_keys d_Date daily)"
  using col_values_Some[of "\<lambda>d. nansum (map d_Spend (group_rows d_Date d daily))" "group_keys d_Date daily"]
  by (simp add: date_totals_def Let_def comp_def)

lemma revenue_values_date_totals:
  "col_values (map dt_Revenue (date_totals daily)) =
   map (\<lambda>d. nansum (map d_Revenue (group_rows d_Date d daily))) (group_keys d_Date daily)"
  using col_values_Some[of "\<lambda>d. nansum (map d_Revenue (group_rows d_Date d daily))" "group_keys d_Date daily"]
  by (simp add: date_totals_def Let_def comp_def)

lemma response_curve_Some:
  assumes "2 \<le> length (spend_by_date daily)" "sum_list (spend_by_date daily) \<noteq> 0"
  shows "simple_response_curve polyfit daily =
           Some (snd (polyfit (spend_by_date daily) (revenue_by_date daily)),
                 fst (polyfit (spend_by_date daily) (revenue_by_date daily)))"
proof -
  have len: "length (dropna (date_totals daily)) = length (spend_by_date daily)"
    unfolding dropna_date_totals by (simp add: date_totals_def spend_by_date_def)
  have sum: "nansum (map dt_Spend (dropna (date_totals daily))) = sum_list (spend_by_date daily)"
    unfolding dropna_date_totals
    by (simp add: date_totals_def spend_by_date_def nansum_def comp_def Let_def group_rows_def)
  have xs: "col_values (map dt_Spend (dropna (date_totals daily))) = spend_by_date daily"
    unfolding dropna_date_totals
    by (simp add: spend_values_date_totals spend_by_date_def group_rows_def)
  have ys: "col_values (map dt_Revenue (dropna (date_totals daily))) = revenue_by_date daily"
    unfolding dropna_date_totals
    by (simp add: revenue_values_date_totals revenue_by_date_def group_rows_def)
  show ?thesis
    using assms
    by (simp add: simple_response_curve_def Let_def len sum xs ys split_beta)
qed



section \<open>Programs that keep the tables of the store\<close>

text \<open>
  Rules for \<open>keeps\<close>, one for each way the programs are built, and the runs
  of the two programs on typed tables.
\<close>

lemma keepsI:
  assumes "\<And>h h' r. n \<le> length h \<Longrightarrow> l \<le> length h \<Longrightarrow> m h = (h', r) \<Longrightarrow>
     length h \<le> length h' \<and> take n h' = take n h \<and> (\<forall>x. r = Inr x \<longrightarrow> Q x (length h'))"
  shows "keeps n l m Q"
  unfolding keeps_def using assms by (auto split: prod.splits)

lemma keepsD:
  assumes "keeps n l m Q" "n \<le> length h" "l \<le> length h" "m h = (h', r)"
  shows "length h \<le> length h'" "take n h' = take n h" "r = Inr x \<Longrightarrow> Q x (length h')"
  using assms unfolding keeps_def by (auto split: prod.splits)

lemma keeps_return: "(\<And>k. l \<le> k \<Longrightarrow> Q x k) \<Longrightarrow> keeps n l (p_return x) Q"
  by (rule keepsI) (auto simp: p_return_def)

lemma keeps_raise: "keeps n l (p_raise e) Q"
  by (rule keepsI) (auto simp: p_raise_def)

lemma keeps_result: "(\<And>x k. r = Inr x \<Longrightarrow> l \<le> k \<Longrightarrow> Q x k) \<Longrightarrow> keeps n l (p_result r) Q"
  by (rule keepsI) (auto simp: p_result_def)

lemma keeps_bind:
  assumes "keeps n l m Q"
    and "\<And>x k. l \<le> k \<Longrightarrow> Q x k \<Longrightarrow> keeps n k (f x) R"
  shows "keeps n l (p_bind m f) R"
proof (rule keepsI)
  fix h h' r
  assume n: "n \<le> length h" and l: "l \<le> length h" and run: "p_bind m f h = (h', r)"
  obtain h1 r1 where m: "m h = (h1, r1)" by (cases "m h")
  note M = keepsD[OF assms(1) n l m]
  show "length h \<le> length h' \<and> take n h' = take n h \<and> (\<forall>x. r = Inr x \<longrightarrow> R x (length h'))"
  proof (cases r1)
    case (Inl e)
    with run m have "h' = h1" "r = Inl e" by (simp_all add: p_bind_def)
    with M show ?thesis by simp
  next
    case (Inr x)
    with run m have f: "f x h1 = (h', r)" by (simp add: p_bind_def)
    have k: "l \<le> length h1" "n \<le> length h1" using l n M(1) by simp_all
    note F = keepsD[OF assms(2)[OF k(1) M(3)[OF Inr]] k(2) le_refl f]
    from M F show ?thesis by auto
  qed
qed

lemma keeps_new: "(\<And>k. l \<le> k \<Longrightarrow> Q k (Suc k)) \<Longrightarrow> keeps n l (new_frame f) Q"
  by (rule keepsI) (auto simp: new_frame_def)

lemma keeps_read: "(\<And>x k. l \<le> k \<Longrightarrow> Q x k) \<Longrightarrow> keeps n l (read_frame a) Q"
  by (rule keepsI) (auto simp: read_frame_def split: if_splits)

lemma keeps_write:
  "n \<le> a \<Longrightarrow> (\<And>k. l \<le> k \<Longrightarrow> Q () k) \<Longrightarrow> keeps n l (write_frame a f) Q"
  by (rule keepsI) (auto simp: write_frame_def split: if_splits)

lemma keeps_read_as: "(\<And>x k. l \<le> k \<Longrightarrow> Q x k) \<Longrightarrow> keeps n l (read_as proj a) Q"
  unfolding read_as_def
  by (rule keeps_bind[where Q = "\<lambda>x k. True"])
     (auto intro!: keeps_read keeps_raise keeps_return split: option.splits)

lemma keeps_copy: "keeps n l (copy_frame a) (\<lambda>b k. l \<le> b \<and> b < k)"
  unfolding copy_frame_def
  by (rule keeps_bind[where Q = "\<lambda>x k. True"]) (auto intro!: keeps_read keeps_new)

lemma keeps_new_fresh: "keeps n l (new_frame f) (\<lambda>a k. l \<le> a \<and> a < k)"
  by (rule keeps_new) simp

lemma keeps_bind_copy:
  assumes "\<And>a k. l \<le> k \<Longrightarrow> l \<le> a \<Longrightarrow> a < k \<Longrightarrow> keeps n k (f a) R"
  shows "keeps n l (p_bind (copy_frame x) f) R"
  by (rule keeps_bind[OF keeps_copy]) (use assms in auto)

lemma keeps_bind_new:
  assumes "\<And>a k. l \<le> k \<Longrightarrow> l \<le> a \<Longrightarrow> a < k \<Longrightarrow> keeps n k (f a) R"
  shows "keeps n l (p_bind (new_frame x) f) R"
  by (rule keeps_bind[OF keeps_new_fresh]) (use assms in auto)

lemma keeps_bind_unit:
  assumes "keeps n l m (\<lambda>x k. True)"
    and "\<And>x k. l \<le> k \<Longrightarrow> keeps n k (f x) R"
  shows "keeps n l (p_bind m f) R"
  by (rule keeps_bind[OF assms(1)]) (use assms(2) in auto)

lemma keeps_read_as_any: "keeps n l (read_as proj a) (\<lambda>x k. True)"
  by (rule keeps_read_as) simp

lemma keeps_write_any: "n \<le> a \<Longrightarrow> keeps n l (write_frame a f) (\<lambda>x k. True)"
  by (rule keeps_write) simp_all

lemma keeps_result_any: "keeps n l (p_result r) (\<lambda>x k. True)"
  by (rule keeps_result) simp

lemma keeps_return_any: "keeps n l (p_return x) (\<lambda>x k. True)"
  by (rule keeps_return) simp

lemma keeps_raw_setitem: "n \<le> df \<Longrightarrow> keeps n l (raw_setitem df c v) (\<lambda>x k. True)"
  unfolding raw_setitem_def
  by (rule keeps_bind_unit[OF keeps_read_as_any]) (rule keeps_write_any)

lemma keeps_raw_getitem: "keeps n l (raw_getitem df c) (\<lambda>x k. True)"
  unfolding raw_getitem_def
  by (rule keeps_bind_unit[OF keeps_read_as_any])
     (auto intro: keeps_raise keeps_return_any split: option.splits)

lemma keeps_if_column:
  assumes "\<And>k. l \<le> k \<Longrightarrow> keeps n k body (\<lambda>x k. True)"
  shows "keeps n l (if_column df c body) (\<lambda>x k. True)"
  unfolding if_column_def
  by (rule keeps_bind_unit[OF keeps_read_as_any])
     (auto intro: assms keeps_return_any split: option.splits)

lemma keeps_for_each:
  assumes "\<And>c k. keeps n k (body c) (\<lambda>x k. True)"
  shows "keeps n l (for_each cs body) (\<lambda>x k. True)"
proof (induction cs arbitrary: l)
  case Nil
  show ?case by (simp add: keeps_return_any)
next
  case (Cons c cs)
  show ?case
    unfolding for_each.simps
    by (rule keeps_bind_unit[OF assms]) (rule Cons.IH)
qed

lemma keeps_convert_column:
  "n \<le> df \<Longrightarrow> keeps n l (if_column df c (p_bind (raw_getitem df c) (\<lambda>col. raw_setitem df c (g col))))
     (\<lambda>x k. True)"
  by (rule keeps_if_column, rule keeps_bind_unit[OF keeps_raw_getitem], rule keeps_raw_setitem)

lemma keeps_if:
  "(c \<Longrightarrow> keeps n l A Q) \<Longrightarrow> (\<not> c \<Longrightarrow> keeps n l B Q) \<Longrightarrow>
   keeps n l (if c then A else B) Q"
  by simp

lemma keeps_case_option:
  "(x = None \<Longrightarrow> keeps n l A Q) \<Longrightarrow> (\<And>y. x = Some y \<Longrightarrow> keeps n l (B y) Q) \<Longrightarrow>
   keeps n l (case x of None \<Rightarrow> A | Some y \<Rightarrow> B y) Q"
  by (cases x) simp_all

lemma keeps_clean_sessions:
  "keeps n n (clean_sessions lib df0) (\<lambda>a k. n \<le> a \<and> a < k)"
  unfolding clean_sessions_def
proof (rule keeps_bind_copy)
  fix df k assume k: "n \<le> k" "n \<le> df" "df < k"
  show "keeps n k
          (p_bind (if_column df ''Date''
               (p_bind (raw_getitem df ''Date'') (\<lambda>col.
                p_bind (p_result (to_datetime_date_col lib col)) (\<lambda>v.
                raw_setitem df ''Date'' v)))) (\<lambda>u.
     p_bind (for_each [''Sessions'', ''Clicks'', ''Spend_gbp'', ''Adj_spend_gbp'', ''CTR'', ''CPC'']
               (\<lambda>c. if_column df c
                  (p_bind (raw_getitem df c) (\<lambda>col.
                   raw_setitem df c (to_numeric_coerce lib col))))) (\<lambda>u.
     p_bind (for_each [''Channel'', ''Source'', ''Medium'', ''Campaign'', ''Department'']
               (\<lambda>c. if_column df c
                  (p_bind (raw_getitem df c) (\<lambda>col.
                   raw_setitem df c (astype_str_strip lib col))))) (\<lambda>u.
     p_return df))))
          (\<lambda>a k. n \<le> a \<and> a < k)"
  proof (rule keeps_bind_unit)
    show "keeps n k (if_column df ''Date''
               (p_bind (raw_getitem df ''Date'') (\<lambda>col.
                p_bind (p_result (to_datetime_date_col lib col)) (\<lambda>v.
                raw_setitem df ''Date'' v)))) (\<lambda>x k. True)"
      by (intro keeps_if_column keeps_bind_unit[OF keeps_raw_getitem]
          keeps_bind_unit[OF keeps_result_any] keeps_raw_setitem k)
  next
    fix u k1 assume k1: "k \<le> k1"
    show "keeps n k1
        (p_bind (for_each [''Sessions'', ''Clicks'', ''Spend_gbp'', ''Adj_spend_gbp'', ''CTR'', ''CPC'']
               (\<lambda>c. if_column df c
                  (p_bind (raw_getitem df c) (\<lambda>col.
                   raw_setitem df c (to_numeric_coerce lib col))))) (\<lambda>u.
     p_bind (for_each [''Channel'', ''Source'', ''Medium'', ''Campaign'', ''Department'']
               (\<lambda>c. if_column df c
                  (p_bind (raw_getitem df c) (\<lambda>col.
                   raw_setitem df c (astype_str_strip lib col))))) (\<lambda>u.
     p_return df)))
          (\<lambda>a k. n \<le> a \<and> a < k)"
    proof (rule keeps_bind_unit[OF keeps_for_each[OF keeps_convert_column[OF k(2)]]])
      fix u k2 assume k2: "k1 \<le> k2"
      show "keeps n k2
        (p_bind (for_each [''Channel'', ''Source'', ''Medium'', ''Campaign'', ''Department'']
               (\<lambda>c. if_column df c
                  (p_bind (raw_getitem df c) (\<lambda>col.
                   raw_setitem df c (astype_str_strip lib col))))) (\<lambda>u.
     p_return df))
          (\<lambda>a k. n \<le> a \<and> a < k)"
      proof (rule keeps_bind_unit[OF keeps_for_each[OF keeps_convert_column[OF k(2)]]])
        fix u k3 assume "k2 \<le> k3"
        with k k1 k2 show "keeps n k3 (p_return df) (\<lambda>a k. n \<le> a \<and> a < k)"
          by (intro keeps_return) simp
      qed
    qed
  qed
qed

lemma keeps_clean_orders:
  "keeps n n (clean_orders lib df0) (\<lambda>a k. n \<le> a \<and> a < k)"
  unfolding clean_orders_def
  by (rule keeps_bind_copy keeps_raw_getitem keeps_result_any keeps_return_any
      | rule keeps_raw_setitem, linarith
      | rule keeps_if_column
      | rule keeps_for_each
      | rule keeps_bind_unit
      | rule keeps_return, (intro conjI; linarith))+

lemma keeps_compute_daily:
  "keeps n n (compute_daily_channel_kpis_prog sessions orders) (\<lambda>a k. n \<le> a \<and> a < k)"
  unfolding compute_daily_channel_kpis_prog_def
  by (rule keeps_bind_copy keeps_bind_new keeps_read_as_any keeps_result_any keeps_return_any
      | rule keeps_write_any, linarith
      | rule keeps_bind_unit
      | rule keeps_return, (intro conjI; linarith)
      | rule keeps_if keeps_case_option)+

lemma keeps_channel_summary:
  "keeps n n (channel_summary_prog df) (\<lambda>a k. n \<le> a \<and> a < k)"
  unfolding channel_summary_prog_def
  by (rule keeps_bind_new keeps_read_as_any keeps_result_any keeps_return_any
      | rule keeps_write_any, linarith
      | rule keeps_bind_unit
      | rule keeps_new, (intro conjI; linarith))+

lemma keeps_run:
  assumes "keeps (length h) (length h) m (\<lambda>a k. length h \<le> a \<and> a < k)" "m h = (h', r)"
  shows "length h \<le> length h' \<and> (\<forall>p<length h. h' ! p = h ! p) \<and>
         (\<forall>a. r = Inr a \<longrightarrow> length h \<le> a \<and> a < length h')"
proof -
  note K = keepsD[OF assms(1) le_refl le_refl assms(2)]
  have "h' ! p = h ! p" if "p < length h" for p
  proof -
    have "h' ! p = take (length h) h' ! p" using that by simp
    also have "\<dots> = h ! p" unfolding K(2) by simp
    finally show ?thesis .
  qed
  with K(1,3) show ?thesis by blast
qed

lemma copy_frame_run:
  "a < length h \<Longrightarrow> copy_frame a h = (h @ [h ! a], Inr (length h))"
  by (simp add: copy_frame_def p_bind_def read_frame_def new_frame_def)

lemma read_as_run:
  "a < length h \<Longrightarrow> proj (h ! a) = Some v \<Longrightarrow> read_as proj a h = (h, Inr v)"
  by (simp add: read_as_def p_bind_def read_frame_def p_return_def)

lemma write_frame_run:
  "a < length h \<Longrightarrow> write_frame a f h = (h[a := f], Inr ())"
  by (simp add: write_frame_def)

lemma new_frame_run: "new_frame f h = (h @ [f], Inr (length h))"
  by (simp add: new_frame_def)

lemma p_bind_run:
  "m h = (h1, Inr x) \<Longrightarrow> p_bind m f h = f x h1"
  "m h = (h1, Inl e) \<Longrightarrow> p_bind m f h = (h1, Inl e)"
  by (simp_all add: p_bind_def)

lemma channel_summary_prog_run:
  assumes "df < length h" "h ! df = DailyF daily"
  shows "channel_summary_prog df h =
     (h @ [SummaryF (map summary_ratios (channel_agg daily)), SummaryF (channel_summary daily)],
      Inr (Suc (length h)))"
  using assms
  by (simp add: channel_summary_prog_def p_bind_def read_as_def read_frame_def p_return_def
      new_frame_def write_frame_def as_daily_def as_agg_def as_summary_def nth_append
      channel_summary_def)

lemma compute_daily_prog_run:
  assumes "sessions < length h" "orders < length h"
    and "h ! sessions = SessionsF s" "h ! orders = OrdersF ords"
  shows "(case compute_daily_channel_kpis s ords of
            Inl e \<Rightarrow> snd (compute_daily_channel_kpis_prog sessions orders h) = Inl e
          | Inr daily \<Rightarrow>
              snd (compute_daily_channel_kpis_prog sessions orders h) = Inr (length h + 5) \<and>
              length (fst (compute_daily_channel_kpis_prog sessions orders h)) = length h + 6 \<and>
              fst (compute_daily_channel_kpis_prog sessions orders h) ! (length h + 5) = DailyF daily)"
proof (cases "assign_Spend s")
  case (Inl e)
  then show ?thesis
    using assms
    by (simp add: compute_daily_channel_kpis_def compute_daily_channel_kpis_prog_def
        p_bind_def copy_frame_def read_as_def read_frame_def p_return_def p_result_def
        new_frame_def as_sessions_def nth_append)
next
  case (Inr s1)
  show ?thesis
  proof (cases "choose_chan_col ords")
    case None
    show ?thesis
    proof (cases "has_Date ords")
      case True
      then show ?thesis
        using assms Inr None
        by (simp add: compute_daily_channel_kpis_def compute_daily_channel_kpis_prog_def
            p_bind_def copy_frame_def read_as_def read_frame_def p_return_def p_result_def
            p_raise_def new_frame_def write_frame_def as_sessions_def as_orders_def as_s_agg_def
            as_o_agg_def as_merged_def nth_append resolve_channel_def ensure_Date_def
            assign_All_def Let_def)
    next
      case False
      then show ?thesis
        using assms Inr None
        by (cases "has_Order_date ords")
          (simp_all add: compute_daily_channel_kpis_def compute_daily_channel_kpis_prog_def
            p_bind_def copy_frame_def read_as_def read_frame_def p_return_def p_result_def
            p_raise_def new_frame_def write_frame_def as_sessions_def as_orders_def as_s_agg_def
            as_o_agg_def as_merged_def nth_append resolve_channel_def ensure_Date_def
            assign_All_def assign_order_Date_def Let_def)
    qed
  next
    case (Some c)
    show ?thesis
    proof (cases "has_Date ords")
      case True
      then show ?thesis
        using assms Inr Some
        by (simp add: compute_daily_channel_kpis_def compute_daily_channel_kpis_prog_def
            p_bind_def copy_frame_def read_as_def read_frame_def p_return_def p_result_def
            p_raise_def new_frame_def write_frame_def as_sessions_def as_orders_def as_s_agg_def
            as_o_agg_def as_merged_def nth_append resolve_channel_def ensure_Date_def Let_def)
    next
      case False
      then show ?thesis
        using assms Inr Some
        by (cases "has_Order_date ords")
          (simp_all add: compute_daily_channel_kpis_def compute_daily_channel_kpis_prog_def
            p_bind_def copy_frame_def read_as_def read_frame_def p_return_def p_result_def
            p_raise_def new_frame_def write_frame_def as_sessions_def as_orders_def as_s_agg_def
            as_o_agg_def as_merged_def nth_append resolve_channel_def ensure_Date_def
            assign_order_Date_def Let_def)
    qed
  qed
qed


section \<open>The examples, evaluated\<close>

lemma ex_three_keys: "group_keys c_key ex_daily_three_channels = [''Email'', ''Organic'', ''Search'']"
  by code_simp

lemma ex_two_groups_keys:
  "group_keys s_key (s_rows ex_sessions_two_groups) = [(1, ''Email''), (1, ''Search'')]"
  by code_simp

lemma ex_two_groups_daily:
  "compute_daily_channel_kpis ex_sessions_two_groups ex_orders_search =
     Inr [\<lparr>d_Date = Some 1, d_Channel = ''Email'', d_Sessions = Some 20, d_Clicks = Some 4,
           d_Spend = Some 10, d_Orders = Some 0, d_Revenue = Some 0,
           d_CVR = Fin 0, d_CPC_calc = Fin (5 / 2), d_CAC = NaN64, d_AOV = NaN64,
           d_ROAS = Fin 0\<rparr>,
          \<lparr>d_Date = Some 1, d_Channel = ''Search'', d_Sessions = Some 40, d_Clicks = Some 8,
           d_Spend = Some 20, d_Orders = Some 2, d_Revenue = Some 40,
           d_CVR = Fin (1 / 4), d_CPC_calc = Fin (5 / 2), d_CAC = Fin 10, d_AOV = Fin 20,
           d_ROAS = Fin 2\<rparr>]"
proof -
  have h: "has_Adj_spend_gbp ex_sessions_two_groups \<or> has_Spend_gbp ex_sessions_two_groups"
    by (simp add: ex_sessions_two_groups_def)
  have o: "has_Date ex_orders_search \<or> has_Order_date ex_orders_search"
    by (simp add: ex_orders_search_def)
  show ?thesis
    unfolding compute_daily_Inr[OF h o] ex_two_groups_keys
    by (simp add: kpi_columns_def daily_group_def Let_def ex_sessions_two_groups_def
        ex_orders_search_def group_rows_def s_key_def order_key_def order_channel_def
        order_date_def nansum_def nunique_def Spend_cell_def fillna_def List.map_filter_simps
        ratio_Some spec_ratio_Fin spec_ratio_NaN)
qed

lemma ex_duplicate_daily:
  "compute_daily_channel_kpis ex_sessions_two_groups
     (ex_orders_search\<lparr>o_rows := o_rows ex_orders_search @ [ex_order_duplicate]\<rparr>) =
     Inr [\<lparr>d_Date = Some 1, d_Channel = ''Email'', d_Sessions = Some 20, d_Clicks = Some 4,
           d_Spend = Some 10, d_Orders = Some 0, d_Revenue = Some 0,
           d_CVR = Fin 0, d_CPC_calc = Fin (5 / 2), d_CAC = NaN64, d_AOV = NaN64,
           d_ROAS = Fin 0\<rparr>,
          \<lparr>d_Date = Some 1, d_Channel = ''Search'', d_Sessions = Some 40, d_Clicks = Some 8,
           d_Spend = Some 20, d_Orders = Some 2, d_Revenue = Some 50,
           d_CVR = Fin (1 / 4), d_CPC_calc = Fin (5 / 2), d_CAC = Fin 10, d_AOV = Fin 25,
           d_ROAS = Fin (5 / 2)\<rparr>]"
proof -
  have h: "has_Adj_spend_gbp ex_sessions_two_groups \<or> has_Spend_gbp ex_sessions_two_groups"
    by (simp add: ex_sessions_two_groups_def)
  have o: "has_Date (ex_orders_search\<lparr>o_rows := o_rows ex_orders_search @ [ex_order_duplicate]\<rparr>)
     \<or> has_Order_date (ex_orders_search\<lparr>o_rows := o_rows ex_orders_search @ [ex_order_duplicate]\<rparr>)"
    by (simp add: ex_orders_search_def)
  show ?thesis
    unfolding compute_daily_Inr[OF h o] ex_two_groups_keys
    by (simp add: kpi_columns_def daily_group_def Let_def ex_sessions_two_groups_def
        ex_orders_search_def ex_order_duplicate_def group_rows_def s_key_def order_key_def
        order_channel_def order_date_def nansum_def nunique_def Spend_cell_def fillna_def
        List.map_filter_simps ratio_Some spec_ratio_Fin spec_ratio_NaN)
qed

lemma ex_all_keys:
  "group_keys s_key (s_rows ex_sessions_all) = [(1, ''All''), (1, ''Search'')]"
  by code_simp

lemma ex_all_daily:
  "compute_daily_channel_kpis ex_sessions_all ex_orders_no_channel =
     Inr [\<lparr>d_Date = Some 1, d_Channel = ''All'', d_Sessions = Some 10, d_Clicks = Some 2,
           d_Spend = Some 5, d_Orders = Some 2, d_Revenue = Some 40,
           d_CVR = Fin 1, d_CPC_calc = Fin (5 / 2), d_CAC = Fin (5 / 2), d_AOV = Fin 20,
           d_ROAS = Fin 8\<rparr>,
          \<lparr>d_Date = Some 1, d_Channel = ''Search'', d_Sessions = Some 30, d_Clicks = Some 6,
           d_Spend = Some 20, d_Orders = Some 0, d_Revenue = Some 0,
           d_CVR = Fin 0, d_CPC_calc = Fin (10 / 3), d_CAC = NaN64, d_AOV = NaN64,
           d_ROAS = Fin 0\<rparr>]"
proof -
  have h: "has_Adj_spend_gbp ex_sessions_all \<or> has_Spend_gbp ex_sessions_all"
    by (simp add: ex_sessions_all_def)
  have o: "has_Date ex_orders_no_channel \<or> has_Order_date ex_orders_no_channel"
    by (simp add: ex_orders_no_channel_def)
  show ?thesis
    unfolding compute_daily_Inr[OF h o] ex_all_keys
    by (simp add: kpi_columns_def daily_group_def Let_def ex_sessions_all_def
        ex_orders_no_channel_def group_rows_def s_key_def order_key_def order_channel_def
        order_date_def nansum_def nunique_def Spend_cell_def fillna_def List.map_filter_simps
        ratio_Some spec_ratio_Fin spec_ratio_NaN)
qed

lemma ex_clean_sessions:
  "clean_sessions ex_lib 0 ex_store =
     (ex_store @
        [RawF [(''Date'', [Day 1, Day 1]),
               (''Channel'', [Str ''Search'', Str ''Email'']),
               (''Sessions'', [Num 30, NaN]),
               (''Note'', [Str ''ok'', NaN])]],
      Inr 5)"
  by (simp add: clean_sessions_def ex_store_def ex_raw_sessions_def ex_lib_def copy_frame_def
      p_bind_def read_frame_def new_frame_def read_as_def p_return_def p_result_def p_raise_def
      write_frame_def if_column_def raw_getitem_def raw_setitem_def as_raw_def nth_append)

lemma ex_clean_orders:
  "clean_orders ex_lib 1 ex_store =
     (ex_store @
        [RawF [(''Order_id'', [Num 1, Num 2]),
               (''Order_date'', [Day 1, Day 1]),
               (''Revenue_gbp'', [Num 10, NaN]),
               (''Channel_ft'', [Str ''Search'', Str ''Search'']),
               (''Date'', [Day 1, Day 1])]],
      Inr 5)"
  by (simp add: clean_orders_def ex_store_def ex_raw_orders_def ex_lib_def copy_frame_def
      p_bind_def read_frame_def new_frame_def read_as_def p_return_def p_result_def p_raise_def
      write_frame_def if_column_def raw_getitem_def raw_setitem_def as_raw_def nth_append)


section \<open>C1: the effective spend of a session row\<close>

text \<open>
  C1, as stated, fails. The table \<open>ex_sessions_adj_missing\<close> has both spend columns; its row
  has no adjusted spend and the raw spend 7. The specification's effective spend is 7; the
  column \<^verbatim>\<open>Spend\<close> that the code assigns holds 0, and so does the daily table.
\<close>

theorem effective_spend_counterexample:
  "map (spec_effective_spend ex_sessions_adj_missing) (s_rows ex_sessions_adj_missing) = [7]
   \<and> assign_Spend ex_sessions_adj_missing =
       Inr \<lparr>has_Spend_gbp = True, has_Adj_spend_gbp = True, has_Spend = True,
            s_rows = [\<lparr>s_Date = Some 1, s_Channel = ''Search'', s_Sessions = Some 10,
                 s_Clicks = Some 5, s_Spend_gbp = Some 7, s_Adj_spend_gbp = None,
                 s_Spend = Some 0\<rparr>]\<rparr>
   \<and> compute_daily_channel_kpis ex_sessions_adj_missing ex_orders_empty =
       Inr [\<lparr>d_Date = Some 1, d_Channel = ''Search'', d_Sessions = Some 10, d_Clicks = Some 5,
             d_Spend = Some 0, d_Orders = Some 0, d_Revenue = Some 0,
             d_CVR = Fin 0, d_CPC_calc = Fin 0, d_CAC = NaN64, d_AOV = NaN64, d_ROAS = NaN64\<rparr>]"
  by (simp add: ex_sessions_adj_missing_def ex_orders_empty_def spec_effective_spend_def
      assign_Spend_def spend_source_def df_get_def fillna_def
      compute_daily_channel_kpis_def assign_Date_def to_datetime_date_def sessions_agg_def
      group_keys_def group_rows_def s_key_def List.map_filter_simps nansum_def
      resolve_channel_def choose_chan_col_def ensure_Date_def orders_agg_def merge_left_def
      matches_def join_row_def fill_orders_revenue_def kpi_columns_def ratio_def np_where_def
      gt0_def ndiv_def to_float64_Fin Let_def)

text \<open>
  C1, amended: the fallback is by column, not by row. When the sessions table has the
  adjusted-spend column, the effective spend of every row is the adjusted spend, and 0 where
  it is missing; when it has only the raw spend column, it is the raw spend, and 0 where
  that is missing. The daily table's Spend of a group is the sum of these values over the
  session rows of the group.
\<close>

theorem effective_spend_column_fallback:
  assumes "has_Adj_spend_gbp s \<or> has_Spend_gbp s"
  shows "(\<exists>s'. assign_Spend s = Inr s' \<and>
            map s_Spend (s_rows s') =
              map (\<lambda>r. fillna 0 (if has_Adj_spend_gbp s then s_Adj_spend_gbp r
                                   else s_Spend_gbp r)) (s_rows s))
       \<and> (\<forall>daily. compute_daily_channel_kpis s ords = Inr daily \<longrightarrow>
            (\<forall>row\<in>set daily. \<exists>d. d_Date row = Some d \<and>
               d_Spend row =
                 Some (nansum (map (\<lambda>r. fillna 0 (if has_Adj_spend_gbp s then s_Adj_spend_gbp r
                                                  else s_Spend_gbp r))
                                (group_rows s_key (d, d_Channel row) (s_rows s))))))"
proof (intro conjI allI impI ballI)
  show "\<exists>s'. assign_Spend s = Inr s' \<and>
            map s_Spend (s_rows s') =
              map (\<lambda>r. fillna 0 (if has_Adj_spend_gbp s then s_Adj_spend_gbp r
                                   else s_Spend_gbp r)) (s_rows s)"
    using assign_Spend_Inr[OF assms] by (simp add: Spend_cell_def comp_def)
next
  fix daily row
  assume run: "compute_daily_channel_kpis s ords = Inr daily" and row: "row \<in> set daily"
  have dates: "has_Date ords \<or> has_Order_date ords"
  proof (rule ccontr)
    assume "\<not> (has_Date ords \<or> has_Order_date ords)"
    then have "compute_daily_channel_kpis s ords = Inl KeyError"
      using compute_daily_KeyError[OF assms] by simp
    with run show False by simp
  qed
  from run row compute_daily_Inr[OF assms dates]
  obtain k where "row = kpi_columns (daily_group s ords k)" by auto
  then show "\<exists>d. d_Date row = Some d \<and>
               d_Spend row =
                 Some (nansum (map (\<lambda>r. fillna 0 (if has_Adj_spend_gbp s then s_Adj_spend_gbp r
                                                  else s_Spend_gbp r))
                                (group_rows s_key (d, d_Channel row) (s_rows s))))"
    by (cases k) (simp add: kpi_columns_def daily_group_def Let_def Spend_cell_def[abs_def])
qed

theorem effective_spend_column_fallback_witness:
  "(has_Adj_spend_gbp ex_sessions_adj_missing \<or> has_Spend_gbp ex_sessions_adj_missing)
   \<and> (\<exists>s'. assign_Spend ex_sessions_adj_missing = Inr s' \<and> map s_Spend (s_rows s') = [Some 0])
   \<and> (\<exists>daily. compute_daily_channel_kpis ex_sessions_adj_missing ex_orders_empty = Inr daily
        \<and> daily \<noteq> [] \<and> (\<forall>row\<in>set daily. d_Date row = Some 1 \<and> d_Spend row = Some 0))"
proof -
  have h: "has_Adj_spend_gbp ex_sessions_adj_missing \<or> has_Spend_gbp ex_sessions_adj_missing"
    by (simp add: ex_sessions_adj_missing_def)
  have o: "has_Date ex_orders_empty \<or> has_Order_date ex_orders_empty"
    by (simp add: ex_orders_empty_def)
  have run: "compute_daily_channel_kpis ex_sessions_adj_missing ex_orders_empty =
      Inr (map (\<lambda>k. kpi_columns (daily_group ex_sessions_adj_missing ex_orders_empty k)) [(1, ''Search'')])"
    unfolding compute_daily_Inr[OF h o]
    by (simp add: ex_sessions_adj_missing_def group_keys_def s_key_def List.map_filter_simps)
  from effective_spend_column_fallback[OF h, of ex_orders_empty] run
  show ?thesis
    by (simp add: ex_sessions_adj_missing_def fillna_def group_rows_def s_key_def nansum_def
        kpi_columns_def daily_group_def Let_def)
qed


section \<open>C2: the channel summary takes ratios of sums\<close>

text \<open>
  C2: every row of the channel summary holds, for its channel, the sums of Sessions, Clicks,
  Spend, Orders and Revenue over the daily rows of that channel (a NaN cell is skipped, as
  pandas' sum does), and its five ratios are the ratio formula applied to these sums. There
  is one row for each channel of the daily table. On the table \<open>ex_daily_two_days\<close> the ROAS
  of the summary is 1000 / 400 = 5 / 2, the ratio of the sums, and not 2, the mean of the
  ROAS of the two days.
\<close>

theorem channel_summary_ratio_of_sums:
  "(\<forall>r\<in>set (channel_summary df).
        c_Sessions r = Some (channel_total d_Sessions (c_Channel r) df) \<and>
        c_Clicks r = Some (channel_total d_Clicks (c_Channel r) df) \<and>
        c_Spend r = Some (channel_total d_Spend (c_Channel r) df) \<and>
        c_Orders r = Some (channel_total d_Orders (c_Channel r) df) \<and>
        c_Revenue r = Some (channel_total d_Revenue (c_Channel r) df) \<and>
        c_CVR r = spec_ratio (channel_total d_Orders (c_Channel r) df)
                             (channel_total d_Clicks (c_Channel r) df) \<and>
        c_CPC r = spec_ratio (channel_total d_Spend (c_Channel r) df)
                             (channel_total d_Clicks (c_Channel r) df) \<and>
        c_CAC r = spec_ratio (channel_total d_Spend (c_Channel r) df)
                             (channel_total d_Orders (c_Channel r) df) \<and>
        c_AOV r = spec_ratio (channel_total d_Revenue (c_Channel r) df)
                             (channel_total d_Orders (c_Channel r) df) \<and>
        c_ROAS r = spec_ratio (channel_total d_Revenue (c_Channel r) df)
                              (channel_total d_Spend (c_Channel r) df))
   \<and> distinct (map c_Channel (channel_summary df))
   \<and> set (map c_Channel (channel_summary df)) = d_Channel ` set df
   \<and> map c_ROAS (channel_summary ex_daily_two_days) = [Fin (5 / 2)]
   \<and> mean_defined (map d_ROAS ex_daily_two_days) = 2"
proof -
  have a: "\<forall>r\<in>set (channel_summary df).
        c_Sessions r = Some (channel_total d_Sessions (c_Channel r) df) \<and>
        c_Clicks r = Some (channel_total d_Clicks (c_Channel r) df) \<and>
        c_Spend r = Some (channel_total d_Spend (c_Channel r) df) \<and>
        c_Orders r = Some (channel_total d_Orders (c_Channel r) df) \<and>
        c_Revenue r = Some (channel_total d_Revenue (c_Channel r) df) \<and>
        c_CVR r = spec_ratio (channel_total d_Orders (c_Channel r) df)
                             (channel_total d_Clicks (c_Channel r) df) \<and>
        c_CPC r = spec_ratio (channel_total d_Spend (c_Channel r) df)
                             (channel_total d_Clicks (c_Channel r) df) \<and>
        c_CAC r = spec_ratio (channel_total d_Spend (c_Channel r) df)
                             (channel_total d_Orders (c_Channel r) df) \<and>
        c_AOV r = spec_ratio (channel_total d_Revenue (c_Channel r) df)
                             (channel_total d_Orders (c_Channel r) df) \<and>
        c_ROAS r = spec_ratio (channel_total d_Revenue (c_Channel r) df)
                              (channel_total d_Spend (c_Channel r) df)"
  proof
    fix r assume "r \<in> set (channel_summary df)"
    then obtain c where r: "r = summary_ratios
        \<lparr>t_Channel = c,
         t_Sessions = Some (channel_total d_Sessions c df),
         t_Clicks = Some (channel_total d_Clicks c df),
         t_Spend = Some (channel_total d_Spend c df),
         t_Orders = Some (channel_total d_Orders c df),
         t_Revenue = Some (channel_total d_Revenue c df)\<rparr>"
      unfolding channel_summary_rows channel_total_def by blast
    show "c_Sessions r = Some (channel_total d_Sessions (c_Channel r) df) \<and>
        c_Clicks r = Some (channel_total d_Clicks (c_Channel r) df) \<and>
        c_Spend r = Some (channel_total d_Spend (c_Channel r) df) \<and>
        c_Orders r = Some (channel_total d_Orders (c_Channel r) df) \<and>
        c_Revenue r = Some (channel_total d_Revenue (c_Channel r) df) \<and>
        c_CVR r = spec_ratio (channel_total d_Orders (c_Channel r) df)
                             (channel_total d_Clicks (c_Channel r) df) \<and>
        c_CPC r = spec_ratio (channel_total d_Spend (c_Channel r) df)
                             (channel_total d_Clicks (c_Channel r) df) \<and>
        c_CAC r = spec_ratio (channel_total d_Spend (c_Channel r) df)
                             (channel_total d_Orders (c_Channel r) df) \<and>
        c_AOV r = spec_ratio (channel_total d_Revenue (c_Channel r) df)
                             (channel_total d_Orders (c_Channel r) df) \<and>
        c_ROAS r = spec_ratio (channel_total d_Revenue (c_Channel r) df)
                              (channel_total d_Spend (c_Channel r) df)"
      unfolding r by (simp add: summary_ratios_def ratio_Some)
  qed
  have b: "distinct (map c_Channel (channel_summary df))" by (rule distinct_channel_summary)
  have c: "set (map c_Channel (channel_summary df)) = d_Channel ` set df"
  proof -
    have "set (map c_Channel (channel_summary df)) = set (group_keys c_key df)"
      by (simp add: channel_summary_def set_sort_values_ROAS channel_agg_def summary_ratios_def
          Let_def image_image)
    then show ?thesis by (auto simp: set_group_keys c_key_def)
  qed
  have d: "map c_ROAS (channel_summary ex_daily_two_days) = [Fin (5 / 2)]"
    by (simp add: ex_daily_two_days_def channel_summary_def channel_agg_def group_keys_def
        group_rows_def c_key_def List.map_filter_simps summary_ratios_def sort_values_ROAS_def
        ratio_Some spec_ratio_Fin spec_ratio_NaN nansum_def Let_def del: not_None_eq)
  have e: "mean_defined (map d_ROAS ex_daily_two_days) = 2"
    by (simp add: ex_daily_two_days_def mean_defined_def
        List.map_filter_simps)
  from a b c d e show ?thesis by blast
qed

theorem channel_summary_ratio_of_sums_witness:
  "channel_summary ex_daily_two_days =
     [\<lparr>c_Channel = ''Search'', c_Sessions = Some 150, c_Clicks = Some 40, c_Spend = Some 400,
       c_Orders = Some 5, c_Revenue = Some 1000, c_CVR = Fin (1 / 8), c_CPC = Fin 10,
       c_CAC = Fin 80, c_AOV = Fin 200, c_ROAS = Fin (5 / 2)\<rparr>]
   \<and> (\<exists>rows. rows = channel_summary ex_daily_two_days \<and>
        (\<forall>r\<in>set rows.
           c_Revenue r = Some (channel_total d_Revenue (c_Channel r) ex_daily_two_days) \<and>
           c_Spend r = Some (channel_total d_Spend (c_Channel r) ex_daily_two_days) \<and>
           c_ROAS r = spec_ratio (channel_total d_Revenue (c_Channel r) ex_daily_two_days)
                                 (channel_total d_Spend (c_Channel r) ex_daily_two_days)))
   \<and> channel_total d_Revenue ''Search'' ex_daily_two_days = 1000
   \<and> channel_total d_Spend ''Search'' ex_daily_two_days = 400"
proof -
  have rows: "channel_summary ex_daily_two_days =
     [\<lparr>c_Channel = ''Search'', c_Sessions = Some 150, c_Clicks = Some 40, c_Spend = Some 400,
       c_Orders = Some 5, c_Revenue = Some 1000, c_CVR = Fin (1 / 8), c_CPC = Fin 10,
       c_CAC = Fin 80, c_AOV = Fin 200, c_ROAS = Fin (5 / 2)\<rparr>]"
    by (simp add: ex_daily_two_days_def channel_summary_def channel_agg_def group_keys_def
        group_rows_def c_key_def List.map_filter_simps summary_ratios_def sort_values_ROAS_def
        ratio_Some spec_ratio_Fin spec_ratio_NaN nansum_def Let_def del: not_None_eq)
  have tot: "channel_total d_Revenue ''Search'' ex_daily_two_days = 1000"
    "channel_total d_Spend ''Search'' ex_daily_two_days = 400"
    by (simp_all add: channel_total_def ex_daily_two_days_def nansum_def)
  from channel_summary_ratio_of_sums[of ex_daily_two_days] rows tot show ?thesis
    by simp
qed


section \<open>C3: every ratio is guarded by its denominator\<close>

text \<open>
  C3, as stated, fails: a ratio can be an infinity. The sessions \<open>ex_sessions_small_spend\<close>
  and the orders \<open>ex_orders_large_revenue\<close> hold finite numbers only; the Spend of their one
  group is 1 / 16 and its Revenue is \<open>2 ^ 1022\<close>. The denominator of ROAS is positive, the
  quotient \<open>2 ^ 1026\<close> is beyond the range of a double, and the ROAS of the daily table and
  of its channel summary is the positive infinity.
\<close>

theorem ratio_overflow_counterexample:
  "compute_daily_channel_kpis ex_sessions_small_spend ex_orders_large_revenue =
     Inr ex_daily_overflow
   \<and> map d_Spend ex_daily_overflow = [Some (1 / 16)]
   \<and> map d_Revenue ex_daily_overflow = [Some (2 ^ 1022)]
   \<and> map d_ROAS ex_daily_overflow = [PosInf]
   \<and> map c_Spend (channel_summary ex_daily_overflow) = [Some (1 / 16)]
   \<and> map c_Revenue (channel_summary ex_daily_overflow) = [Some (2 ^ 1022)]
   \<and> map c_ROAS (channel_summary ex_daily_overflow) = [PosInf]"
proof -
  have h: "has_Adj_spend_gbp ex_sessions_small_spend \<or> has_Spend_gbp ex_sessions_small_spend"
    by (simp add: ex_sessions_small_spend_def)
  have o: "has_Date ex_orders_large_revenue \<or> has_Order_date ex_orders_large_revenue"
    by (simp add: ex_orders_large_revenue_def)
  have big: "to_float64 (2 ^ 1022 / (1 / 16)) = PosInf"
    by (rule to_float64_PosInf) simp
  have small: "to_float64 (2 ^ 1022) = Fin (2 ^ 1022)" "to_float64 (1 / 5) = Fin (1 / 5)"
    "to_float64 (1 / 80) = Fin (1 / 80)" "to_float64 (1 / 16) = Fin (1 / 16)"
    by (rule to_float64_Fin, simp)+
  have daily: "compute_daily_channel_kpis ex_sessions_small_spend ex_orders_large_revenue =
      Inr ex_daily_overflow"
    unfolding compute_daily_Inr[OF h o]
    using big small
    by (simp add: ex_sessions_small_spend_def ex_orders_large_revenue_def ex_daily_overflow_def
        group_keys_def s_key_def List.map_filter_simps kpi_columns_def daily_group_def Let_def
        group_rows_def order_key_def order_channel_def order_date_def nansum_def nunique_def
        Spend_cell_def fillna_def ratio_guarded del: not_None_eq)
  have summary: "channel_summary ex_daily_overflow =
     [\<lparr>c_Channel = ''Search'', c_Sessions = Some 10, c_Clicks = Some 5,
       c_Spend = Some (1 / 16), c_Orders = Some 1, c_Revenue = Some (2 ^ 1022),
       c_CVR = Fin (1 / 5), c_CPC = Fin (1 / 80), c_CAC = Fin (1 / 16),
       c_AOV = Fin (2 ^ 1022), c_ROAS = PosInf\<rparr>]"
    using big small
    by (simp add: ex_daily_overflow_def channel_summary_def channel_agg_def group_keys_def
        group_rows_def c_key_def List.map_filter_simps summary_ratios_def sort_values_ROAS_def
        ratio_guarded nansum_def Let_def del: not_None_eq)
  show ?thesis
    unfolding daily summary by (simp add: ex_daily_overflow_def)
qed

text \<open>
  C3, amended: in every row of the daily table and of the channel summary the four counters
  that the ratios use are numbers, and each of CVR, CPC, CAC, AOV and ROAS is missing exactly
  when its denominator is at most 0. When the denominator is positive the ratio is the
  quotient as a double: the quotient itself when it is within the range of a double, and an
  infinity exactly when it is beyond that range. So an infinity comes only from the overflow
  of a quotient whose denominator is positive, never from a division by zero: where the
  denominator is 0, the quotient that numpy computes is an infinity (NaN for 0 / 0), and the
  guard puts the missing value in its place.
  The ratio columns raise nothing: \<^verbatim>\<open>compute_daily_channel_kpis\<close> raises only when the
  sessions table has no spend column or the orders table has no date column, and
  \<^verbatim>\<open>channel_summary\<close> never raises. The counters are sums and counts, which are exact here:
  what the overflow of a sum does to a counter, and so to its ratios, is not covered.
\<close>

theorem ratios_guarded_up_to_overflow:
  "(\<forall>daily. compute_daily_channel_kpis s ords = Inr daily \<longrightarrow>
      (\<forall>row\<in>set daily. \<exists>clicks spend orders revenue.
         d_Clicks row = Some clicks \<and> d_Spend row = Some spend \<and>
         d_Orders row = Some orders \<and> d_Revenue row = Some revenue \<and>
         guarded_quotient orders clicks (d_CVR row) \<and>
         guarded_quotient spend clicks (d_CPC_calc row) \<and>
         guarded_quotient spend orders (d_CAC row) \<and>
         guarded_quotient revenue orders (d_AOV row) \<and>
         guarded_quotient revenue spend (d_ROAS row)))
   \<and> (\<forall>e. compute_daily_channel_kpis s ords = Inl e \<longrightarrow>
         (\<not> has_Adj_spend_gbp s \<and> \<not> has_Spend_gbp s) \<or>
         (\<not> has_Date ords \<and> \<not> has_Order_date ords))
   \<and> (\<forall>r\<in>set (channel_summary df). \<exists>clicks spend orders revenue.
         c_Clicks r = Some clicks \<and> c_Spend r = Some spend \<and>
         c_Orders r = Some orders \<and> c_Revenue r = Some revenue \<and>
         guarded_quotient orders clicks (c_CVR r) \<and>
         guarded_quotient spend clicks (c_CPC r) \<and>
         guarded_quotient spend orders (c_CAC r) \<and>
         guarded_quotient revenue orders (c_AOV r) \<and>
         guarded_quotient revenue spend (c_ROAS r))
   \<and> (\<forall>n. ndiv (Some n) (Some 0) = (if n = 0 then NaN64 else if 0 < n then PosInf else NegInf)
          \<and> ratio (Some n) (Some 0) = NaN64)"
proof (intro conjI allI impI ballI)
  fix daily row
  assume run: "compute_daily_channel_kpis s ords = Inr daily" and row: "row \<in> set daily"
  have sp: "has_Adj_spend_gbp s \<or> has_Spend_gbp s"
    using run compute_daily_AttributeError[of s ords] by auto
  have dt: "has_Date ords \<or> has_Order_date ords"
    using run compute_daily_KeyError[OF sp, of ords] by auto
  from run row compute_daily_Inr[OF sp dt]
  obtain k where "row = kpi_columns (daily_group s ords k)" by auto
  then show "\<exists>clicks spend orders revenue.
         d_Clicks row = Some clicks \<and> d_Spend row = Some spend \<and>
         d_Orders row = Some orders \<and> d_Revenue row = Some revenue \<and>
         guarded_quotient orders clicks (d_CVR row) \<and>
         guarded_quotient spend clicks (d_CPC_calc row) \<and>
         guarded_quotient spend orders (d_CAC row) \<and>
         guarded_quotient revenue orders (d_AOV row) \<and>
         guarded_quotient revenue spend (d_ROAS row)"
    by (simp add: kpi_columns_def daily_group_def Let_def ratio_guarded_quotient)
next
  fix e assume err: "compute_daily_channel_kpis s ords = Inl e"
  show "(\<not> has_Adj_spend_gbp s \<and> \<not> has_Spend_gbp s) \<or>
         (\<not> has_Date ords \<and> \<not> has_Order_date ords)"
  proof (rule ccontr)
    assume "\<not> ?thesis"
    then have "has_Adj_spend_gbp s \<or> has_Spend_gbp s" "has_Date ords \<or> has_Order_date ords"
      by auto
    from compute_daily_Inr[OF this] err show False by simp
  qed
next
  fix r assume "r \<in> set (channel_summary df)"
  then obtain t cl sp od rv where t: "r = summary_ratios t" "t_Clicks t = Some cl"
      "t_Spend t = Some sp" "t_Orders t = Some od" "t_Revenue t = Some rv"
    unfolding channel_summary_rows by auto
  have "c_Clicks r = Some cl \<and> c_Spend r = Some sp \<and>
         c_Orders r = Some od \<and> c_Revenue r = Some rv \<and>
         guarded_quotient od cl (c_CVR r) \<and>
         guarded_quotient sp cl (c_CPC r) \<and>
         guarded_quotient sp od (c_CAC r) \<and>
         guarded_quotient rv od (c_AOV r) \<and>
         guarded_quotient rv sp (c_ROAS r)"
    using t by (simp add: summary_ratios_def ratio_guarded_quotient)
  then show "\<exists>clicks spend orders revenue.
         c_Clicks r = Some clicks \<and> c_Spend r = Some spend \<and>
         c_Orders r = Some orders \<and> c_Revenue r = Some revenue \<and>
         guarded_quotient orders clicks (c_CVR r) \<and>
         guarded_quotient spend clicks (c_CPC r) \<and>
         guarded_quotient spend orders (c_CAC r) \<and>
         guarded_quotient revenue orders (c_AOV r) \<and>
         guarded_quotient revenue spend (c_ROAS r)"
    by blast
next
  fix n :: real
  show "ndiv (Some n) (Some 0) = (if n = 0 then NaN64 else if 0 < n then PosInf else NegInf)"
    by (simp add: ndiv_def)
next
  fix n :: real
  show "ratio (Some n) (Some 0) = NaN64"
    by (simp add: ratio_guarded)
qed

theorem ratios_guarded_up_to_overflow_witness:
  "(\<exists>daily. compute_daily_channel_kpis ex_sessions_adj_missing ex_orders_empty = Inr daily \<and>
      daily \<noteq> [] \<and>
      (\<forall>row\<in>set daily. d_Clicks row = Some 5 \<and> d_Spend row = Some 0 \<and> d_Orders row = Some 0 \<and>
         d_CVR row = Fin 0 \<and> d_CPC_calc row = Fin 0 \<and>
         d_CAC row = NaN64 \<and> d_AOV row = NaN64 \<and> d_ROAS row = NaN64))
   \<and> (\<exists>rows. channel_summary ex_daily_two_days = rows \<and> rows \<noteq> [] \<and>
        (\<forall>r\<in>set rows. c_Clicks r = Some 40 \<and> c_Orders r = Some 5 \<and> c_CVR r = Fin (1 / 8)))
   \<and> (\<exists>daily. compute_daily_channel_kpis ex_sessions_small_spend ex_orders_large_revenue =
          Inr daily \<and> daily \<noteq> [] \<and>
        (\<forall>row\<in>set daily. d_Spend row = Some (1 / 16) \<and> d_Revenue row = Some (2 ^ 1022) \<and>
           d_ROAS row = PosInf))"
proof -
  have h: "has_Adj_spend_gbp ex_sessions_adj_missing \<or> has_Spend_gbp ex_sessions_adj_missing"
    by (simp add: ex_sessions_adj_missing_def)
  have o: "has_Date ex_orders_empty \<or> has_Order_date ex_orders_empty"
    by (simp add: ex_orders_empty_def)
  have run: "compute_daily_channel_kpis ex_sessions_adj_missing ex_orders_empty =
      Inr [kpi_columns (daily_group ex_sessions_adj_missing ex_orders_empty (1, ''Search''))]"
    unfolding compute_daily_Inr[OF h o]
    by (simp add: ex_sessions_adj_missing_def group_keys_def s_key_def List.map_filter_simps)
  have cells: "d_Clicks (kpi_columns (daily_group ex_sessions_adj_missing ex_orders_empty (1, ''Search''))) = Some 5"
    "d_Spend (kpi_columns (daily_group ex_sessions_adj_missing ex_orders_empty (1, ''Search''))) = Some 0"
    "d_Orders (kpi_columns (daily_group ex_sessions_adj_missing ex_orders_empty (1, ''Search''))) = Some 0"
    by (simp_all add: kpi_columns_def daily_group_def Let_def ex_sessions_adj_missing_def
        ex_orders_empty_def group_rows_def s_key_def nansum_def nunique_def Spend_cell_def
        fillna_def List.map_filter_simps)
  have rows: "channel_summary ex_daily_two_days =
     [\<lparr>c_Channel = ''Search'', c_Sessions = Some 150, c_Clicks = Some 40, c_Spend = Some 400,
       c_Orders = Some 5, c_Revenue = Some 1000, c_CVR = Fin (1 / 8), c_CPC = Fin 10,
       c_CAC = Fin 80, c_AOV = Fin 200, c_ROAS = Fin (5 / 2)\<rparr>]"
    by (simp add: ex_daily_two_days_def channel_summary_def channel_agg_def group_keys_def
        group_rows_def c_key_def List.map_filter_simps summary_ratios_def sort_values_ROAS_def
        ratio_Some spec_ratio_Fin nansum_def Let_def del: not_None_eq)
  from ratios_guarded_up_to_overflow[of ex_sessions_adj_missing ex_orders_empty ex_daily_two_days]
  have "\<forall>row\<in>set [kpi_columns (daily_group ex_sessions_adj_missing ex_orders_empty (1, ''Search''))].
         \<exists>clicks spend orders revenue.
         d_Clicks row = Some clicks \<and> d_Spend row = Some spend \<and>
         d_Orders row = Some orders \<and> d_Revenue row = Some revenue \<and>
         guarded_quotient orders clicks (d_CVR row) \<and>
         guarded_quotient spend clicks (d_CPC_calc row) \<and>
         guarded_quotient spend orders (d_CAC row) \<and>
         guarded_quotient revenue orders (d_AOV row) \<and>
         guarded_quotient revenue spend (d_ROAS row)"
    using run by simp
  then have daily: "\<forall>row\<in>set [kpi_columns (daily_group ex_sessions_adj_missing ex_orders_empty (1, ''Search''))].
      d_Clicks row = Some 5 \<and> d_Spend row = Some 0 \<and> d_Orders row = Some 0 \<and>
         d_CVR row = Fin 0 \<and> d_CPC_calc row = Fin 0 \<and>
         d_CAC row = NaN64 \<and> d_AOV row = NaN64 \<and> d_ROAS row = NaN64"
    using cells double_overflow_pos by (auto simp: guarded_quotient_def)
  have h2: "has_Adj_spend_gbp ex_sessions_small_spend \<or> has_Spend_gbp ex_sessions_small_spend"
    by (simp add: ex_sessions_small_spend_def)
  have o2: "has_Date ex_orders_large_revenue \<or> has_Order_date ex_orders_large_revenue"
    by (simp add: ex_orders_large_revenue_def)
  have run2: "compute_daily_channel_kpis ex_sessions_small_spend ex_orders_large_revenue =
      Inr [kpi_columns (daily_group ex_sessions_small_spend ex_orders_large_revenue (1, ''Search''))]"
    unfolding compute_daily_Inr[OF h2 o2]
    by (simp add: ex_sessions_small_spend_def group_keys_def s_key_def List.map_filter_simps)
  have cells2:
    "d_Spend (kpi_columns (daily_group ex_sessions_small_spend ex_orders_large_revenue (1, ''Search'')))
       = Some (1 / 16)"
    "d_Revenue (kpi_columns (daily_group ex_sessions_small_spend ex_orders_large_revenue (1, ''Search'')))
       = Some (2 ^ 1022)"
    by (simp_all add: kpi_columns_def daily_group_def Let_def ex_sessions_small_spend_def
        ex_orders_large_revenue_def group_rows_def s_key_def order_key_def order_channel_def
        order_date_def nansum_def Spend_cell_def fillna_def List.map_filter_simps
        del: not_None_eq)
  have over: "double_overflow \<le> 2 ^ 1022 / (1 / 16)"
    using double_overflow_le by simp
  let ?row = "kpi_columns (daily_group ex_sessions_small_spend ex_orders_large_revenue
      (1, ''Search''))"
  from ratios_guarded_up_to_overflow[of ex_sessions_small_spend ex_orders_large_revenue
      ex_daily_two_days]
  have "\<forall>row\<in>set [?row].
         \<exists>spend revenue. d_Spend row = Some spend \<and> d_Revenue row = Some revenue \<and>
           guarded_quotient revenue spend (d_ROAS row)"
    using run2 by auto
  then obtain spend revenue where sr: "d_Spend ?row = Some spend" "d_Revenue ?row = Some revenue"
      "guarded_quotient revenue spend (d_ROAS ?row)"
    by auto
  have "Some (1 / 16) = Some spend" "Some (2 ^ 1022) = Some revenue"
    using sr(1,2) unfolding cells2 .
  then have eq: "spend = 1 / 16" "revenue = 2 ^ 1022"
    by (simp_all only: option.inject)
  have "d_ROAS ?row = PosInf \<longleftrightarrow> 0 < spend \<and> double_overflow \<le> revenue / spend"
    using sr(3) unfolding guarded_quotient_def by blast
  moreover have "0 < spend" unfolding eq by simp
  moreover have "double_overflow \<le> revenue / spend" unfolding eq by (rule over)
  ultimately have inf: "d_ROAS ?row = PosInf" by blast
  have daily2: "\<forall>row\<in>set [?row].
      d_Spend row = Some (1 / 16) \<and> d_Revenue row = Some (2 ^ 1022) \<and> d_ROAS row = PosInf"
    using cells2 inf by simp
  show ?thesis
    using run daily rows run2 daily2 by simp
qed


section \<open>C4: the sessions define the rows of the daily table\<close>

text \<open>
  C4: when \<^verbatim>\<open>compute_daily_channel_kpis\<close> returns a table, the (Date, Channel) pairs of its rows
  are exactly the pairs of the session rows that have a date (a row without a date belongs
  to no group of pandas' group-by), each pair on one row; and a row whose pair is the group
  of no order row has Orders = 0 and Revenue = 0.
\<close>

theorem daily_rows_are_session_groups:
  assumes "compute_daily_channel_kpis s ords = Inr daily"
  shows "(\<lambda>row. (d_Date row, d_Channel row)) ` set daily =
           {(Some d, c) | d c. \<exists>r\<in>set (s_rows s). s_Date r = Some d \<and> s_Channel r = c}
       \<and> distinct (map (\<lambda>row. (d_Date row, d_Channel row)) daily)
       \<and> (\<forall>row\<in>set daily. \<forall>d. d_Date row = Some d \<longrightarrow>
            (\<forall>x\<in>set (o_rows ords). order_key ords x \<noteq> Some (d, d_Channel row)) \<longrightarrow>
            d_Orders row = Some 0 \<and> d_Revenue row = Some 0)"
proof -
  have "(\<lambda>row. (d_Date row, d_Channel row)) ` set daily =
        set (map (\<lambda>row. (d_Date row, d_Channel row)) daily)" by simp
  also have "\<dots> = (\<lambda>k. (Some (fst k), snd k)) ` set (group_keys s_key (s_rows s))"
    unfolding daily_keys[OF assms] by simp
  also have "\<dots> = {(Some d, c) | d c. \<exists>r\<in>set (s_rows s). s_Date r = Some d \<and> s_Channel r = c}"
    by (auto simp: set_group_keys s_key_def image_iff)
  finally have a: "(\<lambda>row. (d_Date row, d_Channel row)) ` set daily =
           {(Some d, c) | d c. \<exists>r\<in>set (s_rows s). s_Date r = Some d \<and> s_Channel r = c}" .
  have b: "distinct (map (\<lambda>row. (d_Date row, d_Channel row)) daily)"
    unfolding daily_keys[OF assms]
    by (auto simp: distinct_map distinct_group_keys inj_on_def prod_eq_iff)
  have c: "d_Orders row = Some 0 \<and> d_Revenue row = Some 0"
    if row: "row \<in> set daily" and d: "d_Date row = Some d"
      and none: "\<forall>x\<in>set (o_rows ords). order_key ords x \<noteq> Some (d, d_Channel row)"
    for row d
  proof -
    from row compute_daily_InrD(3)[OF assms]
    obtain k where k: "row = kpi_columns (daily_group s ords k)" by auto
    with d have kd: "k = (d, d_Channel row)"
      by (cases k) (simp add: kpi_columns_def daily_group_def Let_def)
    have "group_rows (order_key ords) k (o_rows ords) = []"
      using none unfolding kd by (auto simp: group_rows_def filter_empty_conv)
    then show ?thesis
      unfolding k by (simp add: kpi_columns_def daily_group_def Let_def nunique_def nansum_def
          List.map_filter_simps)
  qed
  from a b c show ?thesis by blast
qed

theorem daily_rows_are_session_groups_witness:
  "\<exists>daily. compute_daily_channel_kpis ex_sessions_two_groups ex_orders_search = Inr daily \<and>
     map (\<lambda>row. (d_Date row, d_Channel row, d_Orders row, d_Revenue row)) daily =
       [(Some 1, ''Email'', Some 0, Some 0), (Some 1, ''Search'', Some 2, Some 40)] \<and>
     (\<lambda>row. (d_Date row, d_Channel row)) ` set daily =
        {(Some d, c) | d c. \<exists>r\<in>set (s_rows ex_sessions_two_groups).
                               s_Date r = Some d \<and> s_Channel r = c} \<and>
     distinct (map (\<lambda>row. (d_Date row, d_Channel row)) daily)"
  using daily_rows_are_session_groups[OF ex_two_groups_daily] ex_two_groups_daily
  by simp


section \<open>C5: Orders counts distinct Order_id values\<close>

text \<open>
  C5: the Orders of a daily row is the number of distinct Order_id values among the order
  rows of its (Date, resolved channel) group (a missing Order_id is no value), and its
  Revenue is the sum of Revenue over these rows. Adding, anywhere in the orders table, a row
  with the group and the Order_id of a row that is already there leaves the Orders of every
  daily row unchanged.
\<close>

theorem orders_count_distinct_ids:
  assumes "compute_daily_channel_kpis s ords = Inr daily"
  shows "(\<forall>row\<in>set daily. \<exists>d. d_Date row = Some d \<and>
            d_Orders row =
              Some (real (card {i. \<exists>x\<in>set (o_rows ords).
                                order_key ords x = Some (d, d_Channel row) \<and>
                                o_Order_id x = Some i})) \<and>
            d_Revenue row =
              Some (nansum (map o_Revenue_gbp
                      (filter (\<lambda>x. order_key ords x = Some (d, d_Channel row)) (o_rows ords)))))
       \<and> (\<forall>pre post dup x.
            o_rows ords = pre @ post \<longrightarrow> x \<in> set (o_rows ords) \<longrightarrow>
            order_key ords dup = order_key ords x \<longrightarrow> o_Order_id dup = o_Order_id x \<longrightarrow>
            (\<exists>daily'. compute_daily_channel_kpis s (ords\<lparr>o_rows := pre @ dup # post\<rparr>) = Inr daily' \<and>
               map (\<lambda>row. (d_Date row, d_Channel row, d_Orders row)) daily' =
               map (\<lambda>row. (d_Date row, d_Channel row, d_Orders row)) daily))"
proof -
  note D = compute_daily_InrD[OF assms]
  have a: "\<exists>d. d_Date row = Some d \<and>
            d_Orders row =
              Some (real (card {i. \<exists>x\<in>set (o_rows ords).
                                order_key ords x = Some (d, d_Channel row) \<and>
                                o_Order_id x = Some i})) \<and>
            d_Revenue row =
              Some (nansum (map o_Revenue_gbp
                      (filter (\<lambda>x. order_key ords x = Some (d, d_Channel row)) (o_rows ords))))"
    if "row \<in> set daily" for row
  proof -
    from that D(3) obtain k where k: "row = kpi_columns (daily_group s ords k)" by auto
    show ?thesis
      unfolding k
      by (cases k) (simp add: kpi_columns_def daily_group_def Let_def nunique_group_card,
          simp add: group_rows_def)
  qed
  have b: "\<exists>daily'. compute_daily_channel_kpis s (ords\<lparr>o_rows := pre @ dup # post\<rparr>) = Inr daily' \<and>
               map (\<lambda>row. (d_Date row, d_Channel row, d_Orders row)) daily' =
               map (\<lambda>row. (d_Date row, d_Channel row, d_Orders row)) daily"
    if rows: "o_rows ords = pre @ post" and x: "x \<in> set (o_rows ords)"
      and key: "order_key ords dup = order_key ords x" and oid: "o_Order_id dup = o_Order_id x"
    for pre post dup x
  proof -
    let ?ords = "ords\<lparr>o_rows := pre @ dup # post\<rparr>"
    have dt: "has_Date ?ords \<or> has_Order_date ?ords" using D(2) by simp
    have x': "x \<in> set (pre @ post)" using x rows by simp
    have run: "compute_daily_channel_kpis s ?ords =
        Inr (map (\<lambda>k. kpi_columns (daily_group s ?ords k)) (group_keys s_key (s_rows s)))"
      by (rule compute_daily_Inr[OF D(1) dt])
    have "map (\<lambda>row. (d_Date row, d_Channel row, d_Orders row))
            (map (\<lambda>k. kpi_columns (daily_group s ?ords k)) (group_keys s_key (s_rows s))) =
          map (\<lambda>row. (d_Date row, d_Channel row, d_Orders row)) daily"
      unfolding D(3) map_map comp_def
    proof (rule map_cong[OF refl])
      fix k
      have "m_Orders (daily_group s ?ords k) = m_Orders (daily_group s ords k)"
        by (rule daily_group_insert_duplicate[OF x' key oid rows])
      moreover have "m_Date (daily_group s ?ords k) = m_Date (daily_group s ords k)"
        "m_Channel (daily_group s ?ords k) = m_Channel (daily_group s ords k)"
        by (simp_all add: daily_group_def Let_def)
      ultimately show "(d_Date (kpi_columns (daily_group s ?ords k)),
             d_Channel (kpi_columns (daily_group s ?ords k)),
             d_Orders (kpi_columns (daily_group s ?ords k))) =
            (d_Date (kpi_columns (daily_group s ords k)),
             d_Channel (kpi_columns (daily_group s ords k)),
             d_Orders (kpi_columns (daily_group s ords k)))"
        by (simp add: kpi_columns_def)
    qed
    with run show ?thesis by blast
  qed
  from a b show ?thesis by blast
qed

theorem orders_count_distinct_ids_witness:
  "(\<exists>daily daily'.
      compute_daily_channel_kpis ex_sessions_two_groups ex_orders_search = Inr daily \<and>
      compute_daily_channel_kpis ex_sessions_two_groups
        (ex_orders_search\<lparr>o_rows := o_rows ex_orders_search @ [ex_order_duplicate]\<rparr>) = Inr daily' \<and>
      map (\<lambda>row. (d_Channel row, d_Orders row, d_Revenue row)) daily =
        [(''Email'', Some 0, Some 0), (''Search'', Some 2, Some 40)] \<and>
      map (\<lambda>row. (d_Channel row, d_Orders row, d_Revenue row)) daily' =
        [(''Email'', Some 0, Some 0), (''Search'', Some 2, Some 50)] \<and>
      map (\<lambda>row. (d_Date row, d_Channel row, d_Orders row)) daily' =
        map (\<lambda>row. (d_Date row, d_Channel row, d_Orders row)) daily)"
proof -
  have x: "ex_order_duplicate \<in> set (o_rows ex_orders_search)"
    by (simp add: ex_orders_search_def ex_order_duplicate_def)
  have "\<exists>daily'. compute_daily_channel_kpis ex_sessions_two_groups
        (ex_orders_search\<lparr>o_rows := o_rows ex_orders_search @ ex_order_duplicate # []\<rparr>) = Inr daily' \<and>
      map (\<lambda>row. (d_Date row, d_Channel row, d_Orders row)) daily' =
      map (\<lambda>row. (d_Date row, d_Channel row, d_Orders row))
        [\<lparr>d_Date = Some 1, d_Channel = ''Email'', d_Sessions = Some 20, d_Clicks = Some 4,
           d_Spend = Some 10, d_Orders = Some 0, d_Revenue = Some 0,
           d_CVR = Fin 0, d_CPC_calc = Fin (5 / 2), d_CAC = NaN64, d_AOV = NaN64,
           d_ROAS = Fin 0\<rparr>,
          \<lparr>d_Date = Some 1, d_Channel = ''Search'', d_Sessions = Some 40, d_Clicks = Some 8,
           d_Spend = Some 20, d_Orders = Some 2, d_Revenue = Some 40,
           d_CVR = Fin (1 / 4), d_CPC_calc = Fin (5 / 2), d_CAC = Fin 10, d_AOV = Fin 20,
           d_ROAS = Fin 2\<rparr>]"
    by (rule orders_count_distinct_ids[OF ex_two_groups_daily, THEN conjunct2, rule_format,
          of "o_rows ex_orders_search" "[]" ex_order_duplicate ex_order_duplicate])
       (simp_all add: x)
  then show ?thesis
    using ex_two_groups_daily ex_duplicate_daily by simp
qed


section \<open>C6: the order of the channel summary\<close>

text \<open>
  C6: the rows of the channel summary are in descending order of ROAS, and a row whose ROAS
  is missing comes after every row whose ROAS is a number: of two rows, the earlier has a
  ROAS at least as large as the later, or the later has none. The rows are those of \<^verbatim>\<open>agg\<close>
  with the ratio columns, each once.
\<close>

theorem summary_sorted_by_ROAS:
  "sorted_wrt roas_before (map c_ROAS (channel_summary df))
   \<and> mset (channel_summary df) = mset (map summary_ratios (channel_agg df))"
  unfolding channel_summary_def by (simp add: sorted_sort_values_ROAS mset_sort_values_ROAS)

theorem summary_sorted_by_ROAS_witness:
  "map (\<lambda>r. (c_Channel r, c_ROAS r)) (channel_summary ex_daily_three_channels) =
     [(''Search'', Fin 3), (''Email'', Fin 1), (''Organic'', NaN64)]
   \<and> sorted_wrt roas_before [Fin 3, Fin 1, NaN64]"
proof -
  have rows: "map (\<lambda>r. (c_Channel r, c_ROAS r)) (channel_summary ex_daily_three_channels) =
     [(''Search'', Fin 3), (''Email'', Fin 1), (''Organic'', NaN64)]"
    unfolding channel_summary_def channel_agg_def ex_three_keys
    by (simp add: ex_daily_three_channels_def
        group_rows_def c_key_def summary_ratios_def sort_values_ROAS_def roas_key_def
        ratio_Some spec_ratio_Fin spec_ratio_NaN nansum_def Let_def del: not_None_eq)
  have "map c_ROAS (channel_summary ex_daily_three_channels) =
      map snd (map (\<lambda>r. (c_Channel r, c_ROAS r)) (channel_summary ex_daily_three_channels))"
    by (simp add: comp_def)
  then have "map c_ROAS (channel_summary ex_daily_three_channels) = [Fin 3, Fin 1, NaN64]"
    unfolding rows by simp
  with summary_sorted_by_ROAS[of ex_daily_three_channels] rows show ?thesis
    by simp
qed


section \<open>C7: the channel of an order\<close>

text \<open>
  C7: the channel by which the orders are grouped is the cell of \<^verbatim>\<open>Channel_ft\<close> when the orders
  table has that column, else the cell of \<^verbatim>\<open>Channel\<close> when it has that one, else the constant
  \<^verbatim>\<open>"All"\<close> for every row. Without both columns every group of \<^verbatim>\<open>o_agg\<close> has the channel
  \<^verbatim>\<open>"All"\<close>. Orders and Revenue of a daily row are taken over the order rows whose date and
  whose channel, so resolved, are those of the row.
\<close>

theorem order_channel_by_priority:
  "snd (resolve_channel ords) =
     (if has_Channel_ft ords then Channel_ft_col
      else if has_Channel ords then Channel_col else Channel_ft_col)
   \<and> map (chan_cell (snd (resolve_channel ords))) (o_rows (fst (resolve_channel ords))) =
       map (\<lambda>r. if has_Channel_ft ords then o_Channel_ft r
                 else if has_Channel ords then o_Channel r else ''All'') (o_rows ords)
   \<and> (\<not> has_Channel_ft ords \<and> \<not> has_Channel ords \<longrightarrow>
        (\<forall>o'. ensure_Date (fst (resolve_channel ords)) = Inr o' \<longrightarrow>
           (\<forall>g\<in>set (orders_agg (snd (resolve_channel ords)) o'). g_Channel g = ''All'')))
   \<and> (\<forall>daily. compute_daily_channel_kpis s ords = Inr daily \<longrightarrow>
        (\<forall>row\<in>set daily. \<exists>d. d_Date row = Some d \<and>
           d_Orders row =
             Some (real (nunique (map o_Order_id
               (filter (\<lambda>r. order_date ords r = Some d \<and>
                    (if has_Channel_ft ords then o_Channel_ft r
                     else if has_Channel ords then o_Channel r else ''All'') = d_Channel row)
                  (o_rows ords))))) \<and>
           d_Revenue row =
             Some (nansum (map o_Revenue_gbp
               (filter (\<lambda>r. order_date ords r = Some d \<and>
                    (if has_Channel_ft ords then o_Channel_ft r
                     else if has_Channel ords then o_Channel r else ''All'') = d_Channel row)
                  (o_rows ords))))))"
proof -
  have a: "snd (resolve_channel ords) =
     (if has_Channel_ft ords then Channel_ft_col
      else if has_Channel ords then Channel_col else Channel_ft_col)"
    by (simp add: resolve_channel_def choose_chan_col_def)
  have b: "map (chan_cell (snd (resolve_channel ords))) (o_rows (fst (resolve_channel ords))) =
       map (\<lambda>r. if has_Channel_ft ords then o_Channel_ft r
                 else if has_Channel ords then o_Channel r else ''All'') (o_rows ords)"
    using resolved_channel_cells[of ords] by (simp add: order_channel_def[abs_def])
  have c: "g_Channel g = ''All''"
    if no: "\<not> has_Channel_ft ords \<and> \<not> has_Channel ords"
      and o': "ensure_Date (fst (resolve_channel ords)) = Inr o'"
      and g: "g \<in> set (orders_agg (snd (resolve_channel ords)) o')" for o' g
  proof -
    have rc: "resolve_channel ords = (assign_All ords, Channel_ft_col)"
      using no by (simp add: resolve_channel_def choose_chan_col_def)
    have rows: "\<forall>r\<in>set (o_rows o'). o_Channel_ft r = ''All''"
      using o' unfolding rc
      by (auto simp: ensure_Date_def assign_order_Date_def assign_All_def split: if_splits)
    from g obtain k where k: "k \<in> set (group_keys (o_key Channel_ft_col) (o_rows o'))"
      "g_Channel g = snd k"
      unfolding rc by (auto simp: orders_agg_def Let_def)
    from k(1) rows have "snd k = ''All''"
      by (auto simp: set_group_keys o_key_def chan_cell_def)
    with k(2) show ?thesis by simp
  qed
  have d: "\<exists>d. d_Date row = Some d \<and>
           d_Orders row =
             Some (real (nunique (map o_Order_id
               (filter (\<lambda>r. order_date ords r = Some d \<and>
                    (if has_Channel_ft ords then o_Channel_ft r
                     else if has_Channel ords then o_Channel r else ''All'') = d_Channel row)
                  (o_rows ords))))) \<and>
           d_Revenue row =
             Some (nansum (map o_Revenue_gbp
               (filter (\<lambda>r. order_date ords r = Some d \<and>
                    (if has_Channel_ft ords then o_Channel_ft r
                     else if has_Channel ords then o_Channel r else ''All'') = d_Channel row)
                  (o_rows ords))))"
    if run: "compute_daily_channel_kpis s ords = Inr daily" and row: "row \<in> set daily"
    for daily row
  proof -
    from row compute_daily_InrD(3)[OF run]
    obtain k where k: "row = kpi_columns (daily_group s ords k)" by auto
    have f: "group_rows (order_key ords) (a, b) (o_rows ords) =
          filter (\<lambda>r. order_date ords r = Some a \<and>
                    (if has_Channel_ft ords then o_Channel_ft r
                     else if has_Channel ords then o_Channel r else ''All'') = b) (o_rows ords)"
      for a b
      unfolding group_rows_def
      by (rule filter_cong[OF refl]) (auto simp: order_key_def order_channel_def)
    show ?thesis
      unfolding k by (cases k) (simp add: kpi_columns_def daily_group_def Let_def f)
  qed
  from a b c d show ?thesis by blast
qed

theorem order_channel_by_priority_witness:
  "snd (resolve_channel ex_orders_no_channel) = Channel_ft_col
   \<and> map (chan_cell (snd (resolve_channel ex_orders_no_channel)))
         (o_rows (fst (resolve_channel ex_orders_no_channel))) = [''All'', ''All'']
   \<and> (\<exists>o'. ensure_Date (fst (resolve_channel ex_orders_no_channel)) = Inr o' \<and>
         orders_agg (snd (resolve_channel ex_orders_no_channel)) o' \<noteq> [] \<and>
         (\<forall>g\<in>set (orders_agg (snd (resolve_channel ex_orders_no_channel)) o').
            g_Channel g = ''All''))
   \<and> (\<exists>daily. compute_daily_channel_kpis ex_sessions_all ex_orders_no_channel = Inr daily \<and>
         map (\<lambda>row. (d_Channel row, d_Orders row, d_Revenue row)) daily =
           [(''All'', Some 2, Some 40), (''Search'', Some 0, Some 0)])"
proof -
  note T = order_channel_by_priority[of ex_orders_no_channel ex_sessions_all]
  have no: "\<not> has_Channel_ft ex_orders_no_channel \<and> \<not> has_Channel ex_orders_no_channel"
    by (simp add: ex_orders_no_channel_def)
  have a: "snd (resolve_channel ex_orders_no_channel) = Channel_ft_col"
    using T[THEN conjunct1] no by simp
  have b: "map (chan_cell (snd (resolve_channel ex_orders_no_channel)))
         (o_rows (fst (resolve_channel ex_orders_no_channel))) = [''All'', ''All'']"
  proof -
    have "map (chan_cell (snd (resolve_channel ex_orders_no_channel)))
         (o_rows (fst (resolve_channel ex_orders_no_channel))) =
          map (\<lambda>r. if has_Channel_ft ex_orders_no_channel then o_Channel_ft r
                 else if has_Channel ex_orders_no_channel then o_Channel r else ''All'')
            (o_rows ex_orders_no_channel)"
      by (rule T[THEN conjunct2, THEN conjunct1])
    then show ?thesis by (simp add: ex_orders_no_channel_def)
  qed
  obtain o' where o': "ensure_Date (fst (resolve_channel ex_orders_no_channel)) = Inr o'"
    "o_rows o' = [\<lparr>o_Order_date = Some 1, o_Date = Some 1, o_Channel_ft = ''All'',
                 o_Channel = [], o_Order_id = Some (IdNum 1), o_Revenue_gbp = Some 10\<rparr>,
                \<lparr>o_Order_date = Some 1, o_Date = Some 1, o_Channel_ft = ''All'',
                 o_Channel = [], o_Order_id = Some (IdStr ''A-2''), o_Revenue_gbp = Some 30\<rparr>]"
    by (simp add: ex_orders_no_channel_def resolve_channel_def choose_chan_col_def
        assign_All_def ensure_Date_def assign_order_Date_def to_datetime_date_def)
  have ne: "orders_agg (snd (resolve_channel ex_orders_no_channel)) o' \<noteq> []"
    unfolding a
    by (simp add: orders_agg_def group_keys_def o'(2) o_key_def chan_cell_def
        List.map_filter_simps)
  have c: "\<forall>g\<in>set (orders_agg (snd (resolve_channel ex_orders_no_channel)) o').
            g_Channel g = ''All''"
    using T[THEN conjunct2, THEN conjunct2, THEN conjunct1] no o'(1) by blast
  show ?thesis
    using a b o'(1) ne c ex_all_daily by auto
qed


section \<open>C8: the degenerate fit\<close>

text \<open>
  C8: when the daily table has fewer than two dates, or the Spend of all its dated rows sums
  to exactly 0, \<^verbatim>\<open>simple_response_curve\<close> returns the undefined result, whatever
  \<^verbatim>\<open>np.polyfit\<close> would do, and the run still returns the daily table and the channel summary.
  The per-date totals are sums that skip NaN, so no date is dropped for a missing total:
  their number is the number of dates, and their Spend sums to the Spend of the dated rows.
\<close>

theorem degenerate_fit_is_undefined:
  assumes "card {d. \<exists>r\<in>set daily. d_Date r = Some d} < 2
         \<or> nansum (map d_Spend (filter (\<lambda>r. d_Date r \<noteq> None) daily)) = 0"
  shows "simple_response_curve polyfit daily = None
       \<and> (compute_daily_channel_kpis s ords = Inr daily \<longrightarrow>
            main_core polyfit s ords = Inr (daily, channel_summary daily, None))"
proof -
  have "length (dropna (date_totals daily)) < 2
        \<or> nansum (map dt_Spend (dropna (date_totals daily))) = 0"
    using assms unfolding dropna_date_totals length_date_totals total_spend_date_totals .
  then have "simple_response_curve polyfit daily = None"
    by (auto simp: simple_response_curve_def Let_def)
  then show ?thesis by (simp add: main_core_def Let_def)
qed

theorem degenerate_fit_is_undefined_witness:
  "card {d. \<exists>r\<in>set ex_daily_one_date. d_Date r = Some d} = 1
   \<and> simple_response_curve ols_line ex_daily_one_date = None
   \<and> compute_daily_channel_kpis ex_sessions_two_groups ex_orders_search = Inr ex_daily_one_date
   \<and> main_core ols_line ex_sessions_two_groups ex_orders_search =
       Inr (ex_daily_one_date, channel_summary ex_daily_one_date, None)
   \<and> card {d. \<exists>r\<in>set ex_daily_no_spend. d_Date r = Some d} = 2
   \<and> nansum (map d_Spend (filter (\<lambda>r. d_Date r \<noteq> None) ex_daily_no_spend)) = 0
   \<and> simple_response_curve ols_line ex_daily_no_spend = None"
proof -
  have one: "{d. \<exists>r\<in>set ex_daily_one_date. d_Date r = Some d} = {1}"
    by (auto simp: ex_daily_one_date_def)
  have two: "{d. \<exists>r\<in>set ex_daily_no_spend. d_Date r = Some d} = {1, 2}"
    by (auto simp: ex_daily_no_spend_def)
  have zero: "nansum (map d_Spend (filter (\<lambda>r. d_Date r \<noteq> None) ex_daily_no_spend)) = 0"
    by (simp add: ex_daily_no_spend_def nansum_def)
  have run: "compute_daily_channel_kpis ex_sessions_two_groups ex_orders_search = Inr ex_daily_one_date"
    unfolding ex_daily_one_date_def by (rule ex_two_groups_daily)
  have a: "card {d. \<exists>r\<in>set ex_daily_one_date. d_Date r = Some d} < 2
         \<or> nansum (map d_Spend (filter (\<lambda>r. d_Date r \<noteq> None) ex_daily_one_date)) = 0"
    unfolding one by simp
  have b: "card {d. \<exists>r\<in>set ex_daily_no_spend. d_Date r = Some d} < 2
         \<or> nansum (map d_Spend (filter (\<lambda>r. d_Date r \<noteq> None) ex_daily_no_spend)) = 0"
    using zero by simp
  show ?thesis
    using degenerate_fit_is_undefined[OF a, of ols_line ex_sessions_two_groups ex_orders_search]
      degenerate_fit_is_undefined[OF b, of ols_line] run zero
    by (simp add: one two)
qed


section \<open>C10: the stages do not change their input tables\<close>

text \<open>
  C10: whatever the store and the references passed, each of \<^verbatim>\<open>clean_sessions\<close>,
  \<^verbatim>\<open>clean_orders\<close>, \<^verbatim>\<open>compute_daily_channel_kpis\<close> and \<^verbatim>\<open>channel_summary\<close> leaves every table
  that was in the store before the call as it was, field for field and row for row, so the
  input tables too, also when it raises; and the table it returns is a new object of the
  store. On the typed input tables the third returns the table, or raises the exception,
  that \<open>compute_daily_channel_kpis\<close> above computes, and the fourth returns
  \<open>channel_summary\<close> of the daily table.
\<close>

theorem stages_leave_inputs_unchanged:
  "(\<forall>h' r. clean_sessions lib df h = (h', r) \<longrightarrow>
      length h \<le> length h' \<and> (\<forall>p<length h. h' ! p = h ! p) \<and>
      (\<forall>a. r = Inr a \<longrightarrow> length h \<le> a \<and> a < length h'))
   \<and> (\<forall>h' r. clean_orders lib df h = (h', r) \<longrightarrow>
      length h \<le> length h' \<and> (\<forall>p<length h. h' ! p = h ! p) \<and>
      (\<forall>a. r = Inr a \<longrightarrow> length h \<le> a \<and> a < length h'))
   \<and> (\<forall>h' r. compute_daily_channel_kpis_prog sessions orders h = (h', r) \<longrightarrow>
      length h \<le> length h' \<and> (\<forall>p<length h. h' ! p = h ! p) \<and>
      (\<forall>a. r = Inr a \<longrightarrow> length h \<le> a \<and> a < length h') \<and>
      (\<forall>s ords. sessions < length h \<and> orders < length h \<and>
          h ! sessions = SessionsF s \<and> h ! orders = OrdersF ords \<longrightarrow>
          (case compute_daily_channel_kpis s ords of
             Inl e \<Rightarrow> r = Inl e
           | Inr daily \<Rightarrow> (\<exists>a. r = Inr a \<and> h' ! a = DailyF daily))))
   \<and> (\<forall>h' r. channel_summary_prog df h = (h', r) \<longrightarrow>
      length h \<le> length h' \<and> (\<forall>p<length h. h' ! p = h ! p) \<and>
      (\<forall>a. r = Inr a \<longrightarrow> length h \<le> a \<and> a < length h') \<and>
      (\<forall>daily. df < length h \<and> h ! df = DailyF daily \<longrightarrow>
          (\<exists>a. r = Inr a \<and> h' ! a = SummaryF (channel_summary daily))))"
proof -
  have a: "length h \<le> length h' \<and> (\<forall>p<length h. h' ! p = h ! p) \<and>
      (\<forall>a. r = Inr a \<longrightarrow> length h \<le> a \<and> a < length h')"
    if "clean_sessions lib df h = (h', r)" for h' r
    using that by (rule keeps_run[OF keeps_clean_sessions])
  have b: "length h \<le> length h' \<and> (\<forall>p<length h. h' ! p = h ! p) \<and>
      (\<forall>a. r = Inr a \<longrightarrow> length h \<le> a \<and> a < length h')"
    if "clean_orders lib df h = (h', r)" for h' r
    using that by (rule keeps_run[OF keeps_clean_orders])
  have c: "length h \<le> length h' \<and> (\<forall>p<length h. h' ! p = h ! p) \<and>
      (\<forall>a. r = Inr a \<longrightarrow> length h \<le> a \<and> a < length h') \<and>
      (\<forall>s ords. sessions < length h \<and> orders < length h \<and>
          h ! sessions = SessionsF s \<and> h ! orders = OrdersF ords \<longrightarrow>
          (case compute_daily_channel_kpis s ords of
             Inl e \<Rightarrow> r = Inl e
           | Inr daily \<Rightarrow> (\<exists>a. r = Inr a \<and> h' ! a = DailyF daily)))"
    if run: "compute_daily_channel_kpis_prog sessions orders h = (h', r)" for h' r
  proof -
    have frame: "length h \<le> length h' \<and> (\<forall>p<length h. h' ! p = h ! p) \<and>
        (\<forall>a. r = Inr a \<longrightarrow> length h \<le> a \<and> a < length h')"
      using run by (rule keeps_run[OF keeps_compute_daily])
    have link: "case compute_daily_channel_kpis s ords of
               Inl e \<Rightarrow> r = Inl e
             | Inr daily \<Rightarrow> (\<exists>a. r = Inr a \<and> h' ! a = DailyF daily)"
      if "sessions < length h \<and> orders < length h \<and>
            h ! sessions = SessionsF s \<and> h ! orders = OrdersF ords" for s ords
      using compute_daily_prog_run[of sessions h orders s ords] that run
      by (auto split: sum.splits)
    from frame link show ?thesis by blast
  qed
  have d: "length h \<le> length h' \<and> (\<forall>p<length h. h' ! p = h ! p) \<and>
      (\<forall>a. r = Inr a \<longrightarrow> length h \<le> a \<and> a < length h') \<and>
      (\<forall>daily. df < length h \<and> h ! df = DailyF daily \<longrightarrow>
          (\<exists>a. r = Inr a \<and> h' ! a = SummaryF (channel_summary daily)))"
    if run: "channel_summary_prog df h = (h', r)" for h' r
  proof -
    have frame: "length h \<le> length h' \<and> (\<forall>p<length h. h' ! p = h ! p) \<and>
        (\<forall>a. r = Inr a \<longrightarrow> length h \<le> a \<and> a < length h')"
      using run by (rule keeps_run[OF keeps_channel_summary])
    have link: "\<exists>a. r = Inr a \<and> h' ! a = SummaryF (channel_summary daily)"
      if "df < length h \<and> h ! df = DailyF daily" for daily
      using channel_summary_prog_run[of df h daily] that run by (auto simp: nth_append)
    from frame link show ?thesis by blast
  qed
  show ?thesis
    apply (intro conjI)
       apply (intro allI impI, erule a)
      apply (intro allI impI, erule b)
     apply (intro allI impI, erule c)
    apply (intro allI impI, erule d)
    done
qed

theorem stages_leave_inputs_unchanged_witness:
  "snd (clean_sessions ex_lib 0 ex_store) = Inr 5
   \<and> take 5 (fst (clean_sessions ex_lib 0 ex_store)) = ex_store
   \<and> fst (clean_sessions ex_lib 0 ex_store) ! 0 = RawF ex_raw_sessions
   \<and> snd (clean_orders ex_lib 1 ex_store) = Inr 5
   \<and> fst (clean_orders ex_lib 1 ex_store) ! 1 = RawF ex_raw_orders
   \<and> snd (compute_daily_channel_kpis_prog 2 3 ex_store) = Inr 10
   \<and> fst (compute_daily_channel_kpis_prog 2 3 ex_store) ! 10 = DailyF ex_daily_one_date
   \<and> fst (compute_daily_channel_kpis_prog 2 3 ex_store) ! 2 = SessionsF ex_sessions_two_groups
   \<and> fst (compute_daily_channel_kpis_prog 2 3 ex_store) ! 3 = OrdersF ex_orders_search
   \<and> snd (channel_summary_prog 4 ex_store) = Inr 6
   \<and> fst (channel_summary_prog 4 ex_store) ! 6 = SummaryF (channel_summary ex_daily_one_date)
   \<and> fst (channel_summary_prog 4 ex_store) ! 4 = DailyF ex_daily_one_date"
proof -
  have len: "length ex_store = 5" by (simp add: ex_store_def)
  have cells: "ex_store ! 0 = RawF ex_raw_sessions" "ex_store ! 1 = RawF ex_raw_orders"
    "ex_store ! 2 = SessionsF ex_sessions_two_groups" "ex_store ! 3 = OrdersF ex_orders_search"
    "ex_store ! 4 = DailyF ex_daily_one_date"
    by (simp_all add: ex_store_def)
  note T1 = stages_leave_inputs_unchanged[of ex_lib 0 ex_store 2 3, THEN conjunct1, rule_format,
      OF surjective_pairing]
  note T2 = stages_leave_inputs_unchanged[of ex_lib 1 ex_store 2 3, THEN conjunct2,
      THEN conjunct1, rule_format, OF surjective_pairing]
  note T3 = stages_leave_inputs_unchanged[of ex_lib 4 ex_store 2 3, THEN conjunct2,
      THEN conjunct2, THEN conjunct1, rule_format, OF surjective_pairing]
  note T4 = stages_leave_inputs_unchanged[of ex_lib 4 ex_store 2 3, THEN conjunct2,
      THEN conjunct2, THEN conjunct2, rule_format, OF surjective_pairing]
  have a: "snd (clean_sessions ex_lib 0 ex_store) = Inr 5"
    "take 5 (fst (clean_sessions ex_lib 0 ex_store)) = ex_store"
    by (simp_all add: ex_clean_sessions len)
  have a': "fst (clean_sessions ex_lib 0 ex_store) ! 0 = RawF ex_raw_sessions"
    using T1 len cells by simp
  have b: "snd (clean_orders ex_lib 1 ex_store) = Inr 5"
    using ex_clean_orders by simp
  have b': "fst (clean_orders ex_lib 1 ex_store) ! 1 = RawF ex_raw_orders"
    using T2 len cells by simp
  have run: "compute_daily_channel_kpis ex_sessions_two_groups ex_orders_search = Inr ex_daily_one_date"
    unfolding ex_daily_one_date_def by (rule ex_two_groups_daily)
  have c: "snd (compute_daily_channel_kpis_prog 2 3 ex_store) = Inr 10"
    "fst (compute_daily_channel_kpis_prog 2 3 ex_store) ! 10 = DailyF ex_daily_one_date"
    using compute_daily_prog_run[of 2 ex_store 3 ex_sessions_two_groups ex_orders_search]
    by (simp_all add: len cells run)
  have c': "fst (compute_daily_channel_kpis_prog 2 3 ex_store) ! 2 = SessionsF ex_sessions_two_groups"
    "fst (compute_daily_channel_kpis_prog 2 3 ex_store) ! 3 = OrdersF ex_orders_search"
    using T3 len cells by simp_all
  have d: "snd (channel_summary_prog 4 ex_store) = Inr 6"
    "fst (channel_summary_prog 4 ex_store) ! 6 = SummaryF (channel_summary ex_daily_one_date)"
    using channel_summary_prog_run[of 4 ex_store ex_daily_one_date]
    by (simp_all add: len cells nth_append)
  have d': "fst (channel_summary_prog 4 ex_store) ! 4 = DailyF ex_daily_one_date"
    using T4 len cells by simp
  from a a' b b' c c' d d' show ?thesis by simp
qed

end
